theory Spec2Isabelle
  imports Complex_Main "HOL-Library.AList"
begin

section \<open>The signaling relay session of Mondeto-Signaling\<close>

text \<open>
  The repository holds the relay twice: \<^verbatim>\<open>src/app.ts\<close> (class \<^verbatim>\<open>Session\<close>,
  configured from \<^verbatim>\<open>config.yml\<close>) and \<^verbatim>\<open>src/app.js\<close> (the same class with the
  signaling URL as a module constant). Both are embedded below, the TypeScript one under
  the source's names and the JavaScript one under the prefix \<open>js_\<close>.

  A handler of the source mutates the fields of the session and calls \<^verbatim>\<open>send\<close> and
  \<^verbatim>\<open>on\<close> on connection objects. Its model takes the session and returns the updated
  session with the list of those calls, in program order; an exception that leaves the
  handler is the \<open>Inl\<close> branch of the result.
\<close>

subsection \<open>Values\<close>

text \<open>A WebSocket connection object, by identity.\<close>

type_synonym ws = nat

text \<open>
  A JavaScript number as \<^verbatim>\<open>JSON.parse\<close> can return it: a finite double by its
  value, negative zero (the literal \<^verbatim>\<open>-0\<close>), or an infinity (a literal beyond the
  range of a double, such as \<^verbatim>\<open>1e400\<close>).
\<close>

datatype number =
    Finite rat
  | NegZero
  | PosInfinity
  | NegInfinity

text \<open>
  What \<^verbatim>\<open>JSON.parse\<close> returns. The fields of an object are listed in the object's
  property order. Limits of the engine (stack depth, memory) are not modelled.
\<close>

datatype json =
    JNull
  | JBool bool
  | JNum number
  | JStr string
  | JArr "json list"
  | JObj "(string \<times> json) list"

text \<open>
  A frame is represented by what \<^verbatim>\<open>JSON.parse\<close> makes of its text: \<open>None\<close>
  when the text is no JSON (\<^verbatim>\<open>JSON.parse\<close> throws \<^verbatim>\<open>SyntaxError\<close>).
\<close>

type_synonym data = "json option"

datatype exn = SyntaxError | TypeError

definition JSON_parse :: "data \<Rightarrow> exn + json" where
  "JSON_parse d = (case d of None \<Rightarrow> Inl SyntaxError | Some v \<Rightarrow> Inr v)"

text \<open>
  \<^verbatim>\<open>JSON.stringify\<close> on a value that \<^verbatim>\<open>JSON.parse\<close> has returned, as the
  receiver parses the text: an infinity is written \<^verbatim>\<open>null\<close> and negative zero
  \<^verbatim>\<open>0\<close>; every other number, every string (as ES2019 writes them) and the
  order of the fields are kept.
\<close>

primrec JSON_stringify :: "json \<Rightarrow> json" where
  "JSON_stringify JNull = JNull"
| "JSON_stringify (JBool b) = JBool b"
| "JSON_stringify (JNum n) =
     (case n of
        Finite q \<Rightarrow> JNum (Finite q)
      | NegZero \<Rightarrow> JNum (Finite 0)
      | PosInfinity \<Rightarrow> JNull
      | NegInfinity \<Rightarrow> JNull)"
| "JSON_stringify (JStr cs) = JStr cs"
| "JSON_stringify (JArr xs) = JArr (map JSON_stringify xs)"
| "JSON_stringify (JObj kvs) = JObj (map (map_prod id JSON_stringify) kvs)"

text \<open>
  The conversion to a string of a value interpolated in a template literal. On an object
  it calls \<^verbatim>\<open>toString\<close> and then \<^verbatim>\<open>valueOf\<close>; an own property
  \<^verbatim>\<open>toString\<close> of a parsed object is no function and hides the one of
  \<^verbatim>\<open>Object.prototype\<close>, and \<^verbatim>\<open>valueOf\<close> gives no primitive, so the conversion
  throws \<^verbatim>\<open>TypeError\<close> exactly on an object with a field \<^verbatim>\<open>toString\<close>. On an
  array it joins the conversions of the elements. \<^verbatim>\<open>undefined\<close> (\<open>None\<close>) and
  every other value convert.
\<close>

primrec toStringThrows :: "json \<Rightarrow> bool" where
  "toStringThrows JNull = False"
| "toStringThrows (JBool b) = False"
| "toStringThrows (JNum n) = False"
| "toStringThrows (JStr cs) = False"
| "toStringThrows (JArr xs) = list_ex id (map toStringThrows xs)"
| "toStringThrows (JObj kvs) = (map_of kvs ''toString'' \<noteq> None)"

definition interpolate :: "json option \<Rightarrow> exn + unit" where
  "interpolate v =
     (case v of
        None \<Rightarrow> Inr ()
      | Some x \<Rightarrow> (if toStringThrows x then Inl TypeError else Inr ()))"

text \<open>
  The closures that the handlers attach with \<^verbatim>\<open>ws.on\<close>: the two of the coordinator
  (\<^verbatim>\<open>handleServerMessage.bind(this)\<close> and the close arrow function) and the two of
  a participant, which capture the local constant \<^verbatim>\<open>nodeID\<close>.
\<close>

datatype listener =
    ServerMessage
  | ServerClose
  | ClientMessage nat
  | ClientClose nat

text \<open>
  The calls a handler makes on connection objects. The frame of a \<^verbatim>\<open>send\<close> is
  given as the receiver parses it.
\<close>

datatype effect =
    Send ws json
  | On ws listener

subsection \<open>The session (src/app.ts)\<close>

definition serverNodeID :: nat where
  "serverNodeID = 0"

text \<open>
  The mutable fields of the class and \<^verbatim>\<open>iceServerUrl\<close>. The fields
  \<^verbatim>\<open>wssForServer\<close> and \<^verbatim>\<open>wssForClient\<close> are assigned once and only carry the
  \<^verbatim>\<open>connection\<close> events, which are the upgrade events of the dispatch below.
\<close>

record session =
  iceServerUrl :: string
  serverWS :: "ws option"
  clients :: "nat \<rightharpoonup> ws"
  nextNodeID :: nat

text \<open>The constructor.\<close>

definition Session :: "string \<Rightarrow> session" where
  "Session url =
     \<lparr>iceServerUrl = url, serverWS = None, clients = Map.empty,
      nextNodeID = serverNodeID + 1\<rparr>"

text \<open>
  \<^verbatim>\<open>nextNodeID\<close> is a JavaScript number, an IEEE double: \<^verbatim>\<open>this.nextNodeID++\<close>
  adds one exactly below \<open>2^53\<close>, and at \<open>2^53\<close> the sum \<open>2^53 + 1\<close> is rounded
  back to \<open>2^53\<close>. The counter starts at 1, so these are all the values it takes.
\<close>

definition maxExact :: nat where
  "maxExact = 2 ^ 53"

definition increment :: "nat \<Rightarrow> nat" where
  "increment n = (if n < maxExact then n + 1 else n)"

text \<open>The object literals that the session sends.\<close>

definition errorMsg :: json where
  "errorMsg = JObj [(''type'', JStr ''error'')]"

definition helloMsg :: "nat \<Rightarrow> string \<Rightarrow> json" where
  "helloMsg nodeID url =
     JObj [(''type'', JStr ''hello''), (''nodeID'', JNum (Finite (of_nat nodeID))),
           (''iceServerUrl'', JStr url)]"

definition clientConnectedMsg :: "nat \<Rightarrow> json" where
  "clientConnectedMsg nodeID =
     JObj [(''type'', JStr ''clientConnected''), (''nodeID'', JNum (Finite (of_nat nodeID)))]"

text \<open>
  \<^verbatim>\<open>handleServerConnection\<close>. The \<^verbatim>\<open>hello\<close> carries the module-level constant
  \<^verbatim>\<open>iceServerUrl\<close> (line 123 of app.ts, read from the configuration), which is the
  first argument here, not the field \<^verbatim>\<open>this.iceServerUrl\<close>.
\<close>

definition handleServerConnection ::
    "string \<Rightarrow> ws \<Rightarrow> session \<Rightarrow> exn + session \<times> effect list" where
  "handleServerConnection moduleUrl w s =
     (if serverWS s \<noteq> None then Inr (s, [Send w (JSON_stringify errorMsg)])
      else Inr (s\<lparr>serverWS := Some w\<rparr>,
                [On w ServerMessage, On w ServerClose,
                 Send w (JSON_stringify (helloMsg serverNodeID moduleUrl))]))"

text \<open>The close listener of the coordinator.\<close>

definition serverClose :: "session \<Rightarrow> exn + session \<times> effect list" where
  "serverClose s = Inr (s\<lparr>serverWS := None\<rparr>, [])"

text \<open>
  A \<^verbatim>\<open>try\<close> block whose \<^verbatim>\<open>catch\<close> only logs. No \<^verbatim>\<open>try\<close> block of the
  source mutates the session or sends before a point where it can throw, so the state
  after the catch is the state at entry.
\<close>

definition try_catch ::
    "'s \<Rightarrow> (exn + 's \<times> effect list) \<Rightarrow> exn + 's \<times> effect list" where
  "try_catch s body = (case body of Inl e \<Rightarrow> Inr (s, []) | Inr r \<Rightarrow> Inr r)"

text \<open>Decimal notation of an array index, as a property key.\<close>

fun digit :: "nat \<Rightarrow> char" where
  "digit n = char_of (48 + n)"

function indexKey :: "nat \<Rightarrow> string" where
  "indexKey n = (if n < 10 then [digit n] else indexKey (n div 10) @ [digit (n mod 10)])"
  by pat_completeness auto
termination
  by (relation "measure id") auto

declare indexKey.simps [simp del]

definition indexed :: "json list \<Rightarrow> (string \<times> json) list" where
  "indexed xs = zip (map indexKey [0..<length xs]) xs"

text \<open>
  How the object rest pattern of \<^verbatim>\<open>handleServerMessage\<close> runs. app.js is run as
  it is, with the object rest of the language. app.ts is compiled, and the compiler's
  target is set outside the two source files: for ES2018 and above \<^verbatim>\<open>tsc\<close> keeps
  the pattern, below (its default) it calls its helper \<^verbatim>\<open>__rest\<close>, which copies
  with \<^verbatim>\<open>t[p] = s[p]\<close>. For the key \<^verbatim>\<open>__proto__\<close> that assignment is the
  setter of \<^verbatim>\<open>Object.prototype\<close> and adds no property, so the copy has every
  other field and not this one. The models of app.ts take the build as an argument.
\<close>

datatype build =
    NativeRest
  | RestHelper

fun objectRest :: "build \<Rightarrow> (string \<times> json) list \<Rightarrow> (string \<times> json) list" where
  "objectRest NativeRest kvs = AList.delete ''nodeID'' kvs"
| "objectRest RestHelper kvs = AList.delete ''__proto__'' (AList.delete ''nodeID'' kvs)"

text \<open>
  The destructuring \<^verbatim>\<open>const { nodeID: nodeID, ...rest } = v\<close>: \<^verbatim>\<open>null\<close> cannot be
  destructured (\<^verbatim>\<open>TypeError\<close>); a boolean or a number has no own property; a string
  and an array have their indices; an object gives its \<^verbatim>\<open>nodeID\<close> (\<open>None\<close> is
  \<^verbatim>\<open>undefined\<close>) and a copy of its other properties.
\<close>

fun destructure :: "build \<Rightarrow> json \<Rightarrow> exn + json option \<times> json" where
  "destructure tsc JNull = Inl TypeError"
| "destructure tsc (JBool b) = Inr (None, JObj [])"
| "destructure tsc (JNum n) = Inr (None, JObj [])"
| "destructure tsc (JStr cs) = Inr (None, JObj (indexed (map (\<lambda>c. JStr [c]) cs)))"
| "destructure tsc (JArr xs) = Inr (None, JObj (indexed xs))"
| "destructure tsc (JObj kvs) = Inr (map_of kvs ''nodeID'', JObj (objectRest tsc kvs))"

text \<open>
  The key of \<^verbatim>\<open>Map<number, WebSocket>\<close> that a value is equal to, if any: the keys are
  the counter's values, so only a number that is a natural number can be one; a
  \<^verbatim>\<open>Map\<close> takes negative zero for zero.
\<close>

fun keyOf :: "json option \<Rightarrow> nat option" where
  "keyOf (Some (JNum (Finite q))) =
     (if 0 \<le> q \<and> of_int \<lfloor>q\<rfloor> = q then Some (nat \<lfloor>q\<rfloor>) else None)"
| "keyOf (Some (JNum NegZero)) = Some 0"
| "keyOf _ = None"

definition mapHas :: "(nat \<rightharpoonup> ws) \<Rightarrow> json option \<Rightarrow> bool" where
  "mapHas m v = (case keyOf v of None \<Rightarrow> False | Some k \<Rightarrow> m k \<noteq> None)"

definition mapGet :: "(nat \<rightharpoonup> ws) \<Rightarrow> json option \<Rightarrow> ws option" where
  "mapGet m v = (case keyOf v of None \<Rightarrow> None | Some k \<Rightarrow> m k)"

text \<open>
  \<^verbatim>\<open>handleServerMessage\<close>; \<^verbatim>\<open>this.clients.get(nodeID)?.send(...)\<close> sends nothing
  when \<^verbatim>\<open>get\<close> returns \<^verbatim>\<open>undefined\<close>. The log line of the \<^verbatim>\<open>else\<close> branch
  interpolates \<^verbatim>\<open>nodeID\<close>.
\<close>

definition handleServerMessage ::
    "build \<Rightarrow> data \<Rightarrow> session \<Rightarrow> exn + session \<times> effect list" where
  "handleServerMessage tsc d s =
     try_catch s
       (case JSON_parse d of
          Inl e \<Rightarrow> Inl e
        | Inr v \<Rightarrow>
           (case destructure tsc v of
              Inl e \<Rightarrow> Inl e
            | Inr (nodeID, rest) \<Rightarrow>
               (if mapHas (clients s) nodeID then
                  (case mapGet (clients s) nodeID of
                     None \<Rightarrow> Inr (s, [])
                   | Some c \<Rightarrow> Inr (s, [Send c (JSON_stringify rest)]))
                else
                  (case interpolate nodeID of
                     Inl e \<Rightarrow> Inl e
                   | Inr logged \<Rightarrow> Inr (s, [])))))"

text \<open>
  A method call on \<^verbatim>\<open>this.serverWS\<close> without \<^verbatim>\<open>?.\<close>: on \<^verbatim>\<open>null\<close> it throws
  \<^verbatim>\<open>TypeError\<close>.
\<close>

definition sendTo :: "ws option \<Rightarrow> json \<Rightarrow> exn + effect" where
  "sendTo target m = (case target of None \<Rightarrow> Inl TypeError | Some c \<Rightarrow> Inr (Send c m))"

text \<open>\<^verbatim>\<open>handleClientConnection\<close>.\<close>

definition handleClientConnection :: "ws \<Rightarrow> session \<Rightarrow> exn + session \<times> effect list" where
  "handleClientConnection w s =
     (if serverWS s = None then Inr (s, [Send w (JSON_stringify errorMsg)])
      else
        let nodeID = nextNodeID s;
            s1 = s\<lparr>clients := (clients s)(nodeID \<mapsto> w)\<rparr>;
            s2 = s1\<lparr>nextNodeID := increment (nextNodeID s1)\<rparr>
        in (case sendTo (serverWS s2) (JSON_stringify (clientConnectedMsg nodeID)) of
              Inl e \<Rightarrow> Inl e
            | Inr notice \<Rightarrow>
                Inr (s2, [Send w (JSON_stringify (helloMsg nodeID (iceServerUrl s2))), notice,
                          On w (ClientMessage nodeID), On w (ClientClose nodeID)])))"

text \<open>The close listener of the participant admitted as \<open>nodeID\<close>.\<close>

definition clientClose :: "nat \<Rightarrow> session \<Rightarrow> exn + session \<times> effect list" where
  "clientClose nodeID s = Inr (s\<lparr>clients := (clients s)(nodeID := None)\<rparr>, [])"

text \<open>
  Reading \<^verbatim>\<open>msg["nodeID"]\<close>: \<^verbatim>\<open>TypeError\<close> on \<^verbatim>\<open>null\<close>, \<^verbatim>\<open>undefined\<close>
  (\<open>None\<close>) on everything that has no such property.
\<close>

fun getNodeID :: "json \<Rightarrow> exn + json option" where
  "getNodeID JNull = Inl TypeError"
| "getNodeID (JObj kvs) = Inr (map_of kvs ''nodeID'')"
| "getNodeID _ = Inr None"

text \<open>
  The warning of \<^verbatim>\<open>handleClientMessage\<close>: when \<^verbatim>\<open>msg["nodeID"]\<close> is not
  \<^verbatim>\<open>undefined\<close>, the log line interpolates it.
\<close>

definition warnDeclared :: "json option \<Rightarrow> exn + unit" where
  "warnDeclared declared =
     (case declared of None \<Rightarrow> Inr () | Some v \<Rightarrow> interpolate (Some v))"

text \<open>
  The assignment \<^verbatim>\<open>msg["nodeID"] = nodeID\<close>, in strict mode (a class body is strict
  code), seen through \<^verbatim>\<open>JSON.stringify\<close>: it throws \<^verbatim>\<open>TypeError\<close> on a boolean, a
  number and a string; on an object it overwrites the property in its place or appends
  it; on an array it adds a property that is no index, and \<^verbatim>\<open>JSON.stringify\<close> writes
  the elements of an array only.
\<close>

fun setNodeID :: "json \<Rightarrow> nat \<Rightarrow> exn + json" where
  "setNodeID (JObj kvs) nodeID = Inr (JObj (AList.update ''nodeID'' (JNum (Finite (of_nat nodeID))) kvs))"
| "setNodeID (JArr xs) nodeID = Inr (JArr xs)"
| "setNodeID _ nodeID = Inl TypeError"

text \<open>
  \<^verbatim>\<open>handleClientMessage\<close>; the warning is inside the \<^verbatim>\<open>try\<close> block;
  \<^verbatim>\<open>this.serverWS?.send(...)\<close> sends nothing when the slot is \<^verbatim>\<open>null\<close>.
\<close>

definition handleClientMessage ::
    "nat \<Rightarrow> data \<Rightarrow> session \<Rightarrow> exn + session \<times> effect list" where
  "handleClientMessage nodeID d s =
     try_catch s
       (case JSON_parse d of
          Inl e \<Rightarrow> Inl e
        | Inr msg \<Rightarrow>
           (case getNodeID msg of
              Inl e \<Rightarrow> Inl e
            | Inr declared \<Rightarrow>
               (case warnDeclared declared of
                  Inl e \<Rightarrow> Inl e
                | Inr logged \<Rightarrow>
                   (case setNodeID msg nodeID of
                      Inl e \<Rightarrow> Inl e
                    | Inr msg' \<Rightarrow>
                       (case serverWS s of
                          None \<Rightarrow> Inr (s, [])
                        | Some c \<Rightarrow> Inr (s, [Send c (JSON_stringify msg')]))))))"

subsection \<open>Dispatch (src/app.ts)\<close>

text \<open>
  \<^verbatim>\<open>ws.on\<close> appends a listener to the connection object; a \<^verbatim>\<open>message\<close> or
  \<^verbatim>\<open>close\<close> event of a connection calls its listeners for that event in the order
  of registration, and an exception that leaves a listener leaves the dispatch.
  The module-level variable \<^verbatim>\<open>session\<close> and the listeners of every connection make
  the state of the process.
\<close>

record world =
  session :: session
  listeners :: "ws \<Rightarrow> listener list"

fun attach :: "effect \<Rightarrow> (ws \<Rightarrow> listener list) \<Rightarrow> (ws \<Rightarrow> listener list)" where
  "attach (On c l) ls = ls(c := ls c @ [l])"
| "attach (Send c m) ls = ls"

fun onMessage :: "listener \<Rightarrow> bool" where
  "onMessage ServerMessage = True"
| "onMessage (ClientMessage n) = True"
| "onMessage _ = False"

fun onClose :: "listener \<Rightarrow> bool" where
  "onClose ServerClose = True"
| "onClose (ClientClose n) = True"
| "onClose _ = False"

fun call ::
    "build \<Rightarrow> listener \<Rightarrow> data \<Rightarrow> session \<Rightarrow> exn + session \<times> effect list" where
  "call tsc ServerMessage d s = handleServerMessage tsc d s"
| "call tsc ServerClose d s = serverClose s"
| "call tsc (ClientMessage nodeID) d s = handleClientMessage nodeID d s"
| "call tsc (ClientClose nodeID) d s = clientClose nodeID s"

fun emit ::
    "build \<Rightarrow> listener list \<Rightarrow> data \<Rightarrow> session \<Rightarrow> exn + session \<times> effect list" where
  "emit tsc [] d s = Inr (s, [])"
| "emit tsc (l # ls) d s =
     (case call tsc l d s of
        Inl e \<Rightarrow> Inl e
      | Inr (s', es) \<Rightarrow>
         (case emit tsc ls d s' of
            Inl e \<Rightarrow> Inl e
          | Inr (s'', es') \<Rightarrow> Inr (s'', es @ es')))"

text \<open>
  What the process reacts to: an upgrade request on the coordinator's path or on the
  participants' path (the \<^verbatim>\<open>upgrade\<close> handler emits \<^verbatim>\<open>connection\<close> on the matching
  \<^verbatim>\<open>WebSocket.Server\<close>, whose listener \<^verbatim>\<open>start\<close> has bound), a frame on a connection
  and the close of a connection.
\<close>

datatype event =
    ServerUpgrade ws
  | ClientUpgrade ws
  | Message ws data
  | Close ws

fun handle ::
    "build \<Rightarrow> string \<Rightarrow> event \<Rightarrow> world \<Rightarrow> exn + session \<times> effect list" where
  "handle tsc moduleUrl (ServerUpgrade w) W = handleServerConnection moduleUrl w (session W)"
| "handle tsc moduleUrl (ClientUpgrade w) W = handleClientConnection w (session W)"
| "handle tsc moduleUrl (Message w d) W =
     emit tsc (filter onMessage (listeners W w)) d (session W)"
| "handle tsc moduleUrl (Close w) W =
     emit tsc (filter onClose (listeners W w)) None (session W)"

definition step ::
    "build \<Rightarrow> string \<Rightarrow> event \<Rightarrow> world \<Rightarrow> exn + world \<times> effect list" where
  "step tsc moduleUrl ev W =
     (case handle tsc moduleUrl ev W of
        Inl e \<Rightarrow> Inl e
      | Inr (s', es) \<Rightarrow> Inr (\<lparr>session = s', listeners = fold attach es (listeners W)\<rparr>, es))"

fun run ::
    "build \<Rightarrow> string \<Rightarrow> event list \<Rightarrow> world \<Rightarrow> exn + world \<times> effect list" where
  "run tsc moduleUrl [] W = Inr (W, [])"
| "run tsc moduleUrl (ev # evs) W =
     (case step tsc moduleUrl ev W of
        Inl e \<Rightarrow> Inl e
      | Inr (W', es) \<Rightarrow>
         (case run tsc moduleUrl evs W' of
            Inl e \<Rightarrow> Inl e
          | Inr (W'', es') \<Rightarrow> Inr (W'', es @ es')))"

text \<open>
  The process after its start-up code (lines 115 to 128 of app.ts): the module constant
  \<^verbatim>\<open>iceServerUrl\<close> holds the configured URL and \<^verbatim>\<open>session\<close> is
  \<^verbatim>\<open>new Session(iceServerUrl)\<close>; no connection exists yet.
\<close>

definition main :: "string \<Rightarrow> world" where
  "main moduleUrl = \<lparr>session = Session moduleUrl, listeners = (\<lambda>w. [])\<rparr>"

subsection \<open>The session (src/app.js)\<close>

definition js_iceServerUrl :: string where
  "js_iceServerUrl = ''stun:stun.l.google.com:19302''"

record js_session =
  js_serverWS :: "ws option"
  js_clients :: "nat \<rightharpoonup> ws"
  js_nextNodeID :: nat

text \<open>The constructor; it reads none of the arguments that line 114 of app.js passes.\<close>

definition js_Session :: js_session where
  "js_Session =
     \<lparr>js_serverWS = None, js_clients = Map.empty, js_nextNodeID = serverNodeID + 1\<rparr>"

definition js_handleServerConnection ::
    "ws \<Rightarrow> js_session \<Rightarrow> exn + js_session \<times> effect list" where
  "js_handleServerConnection w s =
     (if js_serverWS s \<noteq> None then Inr (s, [Send w (JSON_stringify errorMsg)])
      else Inr (s\<lparr>js_serverWS := Some w\<rparr>,
                [On w ServerMessage, On w ServerClose,
                 Send w (JSON_stringify (helloMsg serverNodeID js_iceServerUrl))]))"

definition js_serverClose :: "js_session \<Rightarrow> exn + js_session \<times> effect list" where
  "js_serverClose s = Inr (s\<lparr>js_serverWS := None\<rparr>, [])"

text \<open>
  \<^verbatim>\<open>handleServerMessage\<close> of app.js calls \<^verbatim>\<open>this.clients.get(nodeID).send(...)\<close>
  without \<^verbatim>\<open>?.\<close>, inside the \<^verbatim>\<open>try\<close> block; its object rest is the
  language's.
\<close>

definition js_handleServerMessage ::
    "data \<Rightarrow> js_session \<Rightarrow> exn + js_session \<times> effect list" where
  "js_handleServerMessage d s =
     try_catch s
       (case JSON_parse d of
          Inl e \<Rightarrow> Inl e
        | Inr v \<Rightarrow>
           (case destructure NativeRest v of
              Inl e \<Rightarrow> Inl e
            | Inr (nodeID, rest) \<Rightarrow>
               (if mapHas (js_clients s) nodeID then
                  (case sendTo (mapGet (js_clients s) nodeID) (JSON_stringify rest) of
                     Inl e \<Rightarrow> Inl e
                   | Inr sent \<Rightarrow> Inr (s, [sent]))
                else
                  (case interpolate nodeID of
                     Inl e \<Rightarrow> Inl e
                   | Inr logged \<Rightarrow> Inr (s, [])))))"

definition js_handleClientConnection ::
    "ws \<Rightarrow> js_session \<Rightarrow> exn + js_session \<times> effect list" where
  "js_handleClientConnection w s =
     (if js_serverWS s = None then Inr (s, [Send w (JSON_stringify errorMsg)])
      else
        let nodeID = js_nextNodeID s;
            s1 = s\<lparr>js_clients := (js_clients s)(nodeID \<mapsto> w)\<rparr>;
            s2 = s1\<lparr>js_nextNodeID := increment (js_nextNodeID s1)\<rparr>
        in (case sendTo (js_serverWS s2) (JSON_stringify (clientConnectedMsg nodeID)) of
              Inl e \<Rightarrow> Inl e
            | Inr notice \<Rightarrow>
                Inr (s2, [Send w (JSON_stringify (helloMsg nodeID js_iceServerUrl)), notice,
                          On w (ClientMessage nodeID), On w (ClientClose nodeID)])))"

definition js_clientClose :: "nat \<Rightarrow> js_session \<Rightarrow> exn + js_session \<times> effect list" where
  "js_clientClose nodeID s = Inr (s\<lparr>js_clients := (js_clients s)(nodeID := None)\<rparr>, [])"

text \<open>
  \<^verbatim>\<open>handleClientMessage\<close> of app.js calls \<^verbatim>\<open>this.serverWS.send(...)\<close> without
  \<^verbatim>\<open>?.\<close>, inside the \<^verbatim>\<open>try\<close> block.
\<close>

definition js_handleClientMessage ::
    "nat \<Rightarrow> data \<Rightarrow> js_session \<Rightarrow> exn + js_session \<times> effect list" where
  "js_handleClientMessage nodeID d s =
     try_catch s
       (case JSON_parse d of
          Inl e \<Rightarrow> Inl e
        | Inr msg \<Rightarrow>
           (case getNodeID msg of
              Inl e \<Rightarrow> Inl e
            | Inr declared \<Rightarrow>
               (case warnDeclared declared of
                  Inl e \<Rightarrow> Inl e
                | Inr logged \<Rightarrow>
                   (case setNodeID msg nodeID of
                      Inl e \<Rightarrow> Inl e
                    | Inr msg' \<Rightarrow>
                       (case sendTo (js_serverWS s) (JSON_stringify msg') of
                          Inl e \<Rightarrow> Inl e
                        | Inr sent \<Rightarrow> Inr (s, [sent]))))))"

subsection \<open>Dispatch (src/app.js)\<close>

record js_world =
  js_session :: js_session
  js_listeners :: "ws \<Rightarrow> listener list"

fun js_call :: "listener \<Rightarrow> data \<Rightarrow> js_session \<Rightarrow> exn + js_session \<times> effect list" where
  "js_call ServerMessage d s = js_handleServerMessage d s"
| "js_call ServerClose d s = js_serverClose s"
| "js_call (ClientMessage nodeID) d s = js_handleClientMessage nodeID d s"
| "js_call (ClientClose nodeID) d s = js_clientClose nodeID s"

fun js_emit ::
    "listener list \<Rightarrow> data \<Rightarrow> js_session \<Rightarrow> exn + js_session \<times> effect list" where
  "js_emit [] d s = Inr (s, [])"
| "js_emit (l # ls) d s =
     (case js_call l d s of
        Inl e \<Rightarrow> Inl e
      | Inr (s', es) \<Rightarrow>
         (case js_emit ls d s' of
            Inl e \<Rightarrow> Inl e
          | Inr (s'', es') \<Rightarrow> Inr (s'', es @ es')))"

fun js_handle :: "event \<Rightarrow> js_world \<Rightarrow> exn + js_session \<times> effect list" where
  "js_handle (ServerUpgrade w) W = js_handleServerConnection w (js_session W)"
| "js_handle (ClientUpgrade w) W = js_handleClientConnection w (js_session W)"
| "js_handle (Message w d) W =
     js_emit (filter onMessage (js_listeners W w)) d (js_session W)"
| "js_handle (Close w) W =
     js_emit (filter onClose (js_listeners W w)) None (js_session W)"

definition js_step :: "event \<Rightarrow> js_world \<Rightarrow> exn + js_world \<times> effect list" where
  "js_step ev W =
     (case js_handle ev W of
        Inl e \<Rightarrow> Inl e
      | Inr (s', es) \<Rightarrow>
          Inr (\<lparr>js_session = s', js_listeners = fold attach es (js_listeners W)\<rparr>, es))"

fun js_run :: "event list \<Rightarrow> js_world \<Rightarrow> exn + js_world \<times> effect list" where
  "js_run [] W = Inr (W, [])"
| "js_run (ev # evs) W =
     (case js_step ev W of
        Inl e \<Rightarrow> Inl e
      | Inr (W', es) \<Rightarrow>
         (case js_run evs W' of
            Inl e \<Rightarrow> Inl e
          | Inr (W'', es') \<Rightarrow> Inr (W'', es @ es')))"

definition js_main :: js_world where
  "js_main = \<lparr>js_session = js_Session, js_listeners = (\<lambda>w. [])\<rparr>"

subsection \<open>Observations and example states\<close>

text \<open>A field of a message, when the message is an object that has it.\<close>

definition field :: "string \<Rightarrow> json \<Rightarrow> json option" where
  "field k v = (case v of JObj kvs \<Rightarrow> map_of kvs k | _ \<Rightarrow> None)"

text \<open>The frames sent to a connection, in order.\<close>

fun sentTo :: "ws \<Rightarrow> effect list \<Rightarrow> json list" where
  "sentTo c [] = []"
| "sentTo c (Send c' m # es) = (if c' = c then m # sentTo c es else sentTo c es)"
| "sentTo c (On c' l # es) = sentTo c es"

text \<open>
  A state with the coordinator on connection 1 and one participant, admitted as 7 on
  connection 4, in both implementations.
\<close>

definition attachedWorld :: world where
  "attachedWorld =
     \<lparr>session = \<lparr>iceServerUrl = ''stun:a'', serverWS = Some 1,
                 clients = [7 \<mapsto> 4], nextNodeID = 8\<rparr>,
      listeners = (\<lambda>w. [])(1 := [ServerMessage, ServerClose],
                             4 := [ClientMessage 7, ClientClose 7])\<rparr>"

definition js_attachedWorld :: js_world where
  "js_attachedWorld =
     \<lparr>js_session = \<lparr>js_serverWS = Some 1, js_clients = [7 \<mapsto> 4], js_nextNodeID = 8\<rparr>,
      js_listeners = (\<lambda>w. [])(1 := [ServerMessage, ServerClose],
                                4 := [ClientMessage 7, ClientClose 7])\<rparr>"

text \<open>The calls of an outcome; none when the handler threw.\<close>

definition effectsOf :: "exn + 'a \<times> effect list \<Rightarrow> effect list" where
  "effectsOf r = (case r of Inl e \<Rightarrow> [] | Inr (x, es) \<Rightarrow> es)"

text \<open>
  The state after the coordinator on connection 1 has attached and left again.
\<close>

definition leftWorld :: world where
  "leftWorld =
     \<lparr>session = \<lparr>iceServerUrl = ''stun:a'', serverWS = None, clients = Map.empty, nextNodeID = 1\<rparr>,
      listeners = (\<lambda>w. [])(1 := [ServerMessage, ServerClose])\<rparr>"

text \<open>
  The identifiers assigned by admissions: an admission attaches the message listener
  that captures the identifier, and nothing else attaches one.
\<close>

fun assigned :: "effect list \<Rightarrow> nat list" where
  "assigned [] = []"
| "assigned (On w (ClientMessage nodeID) # es) = nodeID # assigned es"
| "assigned (e # es) = assigned es"

text \<open>Two admissions with a disconnect between them.\<close>

definition exampleEvents :: "event list" where
  "exampleEvents = [ServerUpgrade 1, ClientUpgrade 4, Close 4, ClientUpgrade 5]"

text \<open>A coordinator and then \<open>2^53 + 1\<close> admissions.\<close>

definition overflowEvents :: "event list" where
  "overflowEvents = ServerUpgrade 0 # replicate (Suc maxExact) (ClientUpgrade 1)"

text \<open>
  The value \<open>v\<close> is the number \<open>k\<close>, as a key of the registry (negative zero is the
  key 0).
\<close>

definition addresses :: "json \<Rightarrow> nat \<Rightarrow> bool" where
  "addresses v k \<longleftrightarrow> v = JNum (Finite (of_nat k)) \<or> (v = JNum NegZero \<and> k = 0)"

text \<open>
  The values that \<^verbatim>\<open>JSON.stringify\<close> writes as they are: those with no infinity
  and no negative zero in them.
\<close>

primrec wireExact :: "json \<Rightarrow> bool" where
  "wireExact JNull = True"
| "wireExact (JBool b) = True"
| "wireExact (JNum n) =
     (case n of
        Finite q \<Rightarrow> True
      | NegZero \<Rightarrow> False
      | PosInfinity \<Rightarrow> False
      | NegInfinity \<Rightarrow> False)"
| "wireExact (JStr cs) = True"
| "wireExact (JArr xs) = list_all id (map wireExact xs)"
| "wireExact (JObj kvs) = list_all snd (map (map_prod id wireExact) kvs)"

text \<open>
  A frame that parses to an object with a field \<^verbatim>\<open>__proto__\<close>; an event that
  the coordinator's message listener receives; and the runs of app.ts in which no frame
  with such a field reaches that listener.
\<close>

fun hasProto :: "event \<Rightarrow> bool" where
  "hasProto (Message w (Some (JObj kvs))) = (map_of kvs ''__proto__'' \<noteq> None)"
| "hasProto ev = False"

fun coordinatorFrame :: "world \<Rightarrow> event \<Rightarrow> bool" where
  "coordinatorFrame W (Message w d) = (ServerMessage \<in> set (listeners W w))"
| "coordinatorFrame W ev = False"

fun protoFree :: "build \<Rightarrow> string \<Rightarrow> event list \<Rightarrow> world \<Rightarrow> bool" where
  "protoFree tsc moduleUrl [] W = True"
| "protoFree tsc moduleUrl (ev # evs) W =
     (\<not> (coordinatorFrame W ev \<and> hasProto ev)
      \<and> (case step tsc moduleUrl ev W of
           Inl e \<Rightarrow> True
         | Inr (W', es) \<Rightarrow> protoFree tsc moduleUrl evs W'))"

text \<open>
  A coordinator, a participant (admitted as 1 on connection 4) and a coordinator frame
  for it with a field \<^verbatim>\<open>__proto__\<close>.
\<close>

definition protoEvents :: "event list" where
  "protoEvents =
     [ServerUpgrade 1, ClientUpgrade 4,
      Message 1 (Some (JObj [(''nodeID'', JNum (Finite 1)),
                             (''__proto__'', JObj [(''a'', JNum (Finite 1))]),
                             (''b'', JNum (Finite 2))]))]"

text \<open>
  The fields that the session of app.js has, read off a session of app.ts, and the
  same for the whole state and for outcomes.
\<close>

definition view :: "session \<Rightarrow> js_session" where
  "view s = \<lparr>js_serverWS = serverWS s, js_clients = clients s, js_nextNodeID = nextNodeID s\<rparr>"

definition viewWorld :: "world \<Rightarrow> js_world" where
  "viewWorld W = \<lparr>js_session = view (session W), js_listeners = listeners W\<rparr>"

definition viewHandled :: "exn + session \<times> effect list \<Rightarrow> exn + js_session \<times> effect list" where
  "viewHandled r = (case r of Inl e \<Rightarrow> Inl e | Inr (s, es) \<Rightarrow> Inr (view s, es))"

definition viewRun :: "exn + world \<times> effect list \<Rightarrow> exn + js_world \<times> effect list" where
  "viewRun r = (case r of Inl e \<Rightarrow> Inl e | Inr (W, es) \<Rightarrow> Inr (viewWorld W, es))"

text \<open>
  A coordinator, a participant (admitted as 1 on connection 4) and a coordinator frame
  for it.
\<close>

definition relayEvents :: "event list" where
  "relayEvents =
     [ServerUpgrade 1, ClientUpgrade 4,
      Message 1 (Some (JObj [(''nodeID'', JNum (Finite 1)), (''foo'', JStr ''bar'')]))]"

section \<open>Properties\<close>

subsection \<open>Auxiliary facts\<close>

lemma natural_rat: "0 \<le> q \<and> rat_of_int \<lfloor>q\<rfloor> = q \<and> nat \<lfloor>q\<rfloor> = k \<longleftrightarrow> q = rat_of_nat k"
proof
  assume a: "0 \<le> q \<and> rat_of_int \<lfloor>q\<rfloor> = q \<and> nat \<lfloor>q\<rfloor> = k"
  then have 1: "rat_of_int \<lfloor>q\<rfloor> = q" and 2: "nat \<lfloor>q\<rfloor> = k" and 3: "0 \<le> \<lfloor>q\<rfloor>"
    by simp_all
  have "rat_of_nat k = rat_of_int (int (nat \<lfloor>q\<rfloor>))"
    unfolding 2 by simp
  also have "\<dots> = rat_of_int \<lfloor>q\<rfloor>"
    using 3 by simp
  finally show "q = rat_of_nat k"
    using 1 by simp
next
  assume "q = rat_of_nat k"
  then show "0 \<le> q \<and> rat_of_int \<lfloor>q\<rfloor> = q \<and> nat \<lfloor>q\<rfloor> = k" by simp
qed

lemma keyOf_addresses: "keyOf (Some v) = Some k \<longleftrightarrow> addresses v k"
proof (cases v)
  case (JNum n)
  then show ?thesis
    using natural_rat [of _ k]
    by (cases n) (auto simp: addresses_def)
qed (simp_all add: addresses_def)

lemma delete_filter: "AList.delete k kvs = filter (\<lambda>kv. fst kv \<noteq> k) kvs"
  by (induction kvs) (auto simp: AList.delete_eq)

lemma mapGet_addressed: "addresses v k \<Longrightarrow> mapGet m (Some v) = m k"
  using keyOf_addresses [of v k] by (simp add: mapGet_def)

lemma mapGet_number: "mapGet m (Some (JNum (Finite (of_nat k)))) = m k"
  by (simp add: mapGet_def)

lemma mapGet_None: "(\<forall>k. addresses v k \<longrightarrow> m k = None) \<Longrightarrow> mapGet m (Some v) = None"
  using keyOf_addresses [of v] by (auto simp: mapGet_def split: option.splits)

lemma mapHas_mapGet: "mapHas m v \<longleftrightarrow> mapGet m v \<noteq> None"
  by (simp add: mapHas_def mapGet_def split: option.splits)

lemma wireExact_stringify: "wireExact v \<Longrightarrow> JSON_stringify v = v"
proof (induction v)
  case (JNum n)
  then show ?case by (cases n) simp_all
next
  case (JArr xs)
  then show ?case by (auto simp: list_all_iff intro: map_idI)
next
  case (JObj kvs)
  then show ?case by (auto simp: list_all_iff intro!: map_idI)
qed simp_all

lemma objectRest_filter:
  "objectRest tsc kvs =
     filter (\<lambda>kv. fst kv \<noteq> ''nodeID'' \<and> (tsc = RestHelper \<longrightarrow> fst kv \<noteq> ''__proto__'')) kvs"
  by (cases tsc) (auto simp: delete_filter intro: filter_cong)

lemma objectRest_plain:
  "tsc = NativeRest \<or> map_of kvs ''__proto__'' = None \<Longrightarrow>
     objectRest tsc kvs = filter (\<lambda>kv. fst kv \<noteq> ''nodeID'') kvs"
  unfolding objectRest_filter
  by (intro filter_cong) (auto simp: map_of_eq_None_iff, force)

lemma wireExact_filter: "wireExact (JObj kvs) \<Longrightarrow> wireExact (JObj (filter P kvs))"
  by (simp add: list_all_iff)

lemma handleServerMessage_object:
  "handleServerMessage tsc (Some (JObj kvs)) s =
     Inr (s, case mapGet (clients s) (map_of kvs ''nodeID'') of
               None \<Rightarrow> []
             | Some c \<Rightarrow> [Send c (JSON_stringify (JObj (objectRest tsc kvs)))])"
  by (auto simp: handleServerMessage_def try_catch_def JSON_parse_def mapHas_mapGet
           split: option.splits sum.splits)

lemma js_handleServerMessage_object:
  "js_handleServerMessage (Some (JObj kvs)) s =
     Inr (s, case mapGet (js_clients s) (map_of kvs ''nodeID'') of
               None \<Rightarrow> []
             | Some c \<Rightarrow> [Send c (JSON_stringify (JObj (objectRest NativeRest kvs)))])"
  by (auto simp: js_handleServerMessage_def try_catch_def JSON_parse_def mapHas_mapGet sendTo_def
           split: option.splits sum.splits)

subsection \<open>Admission of the coordinator\<close>

text \<open>
  C1. While a coordinator is attached, an upgrade request on the coordinator's path is
  answered with one \<^verbatim>\<open>error\<close> frame to the new connection and nothing else: the
  whole state is as before (the slot holds the original connection, the registry and the
  counter are unchanged, no listener is attached to any connection). In app.ts and in
  app.js.
\<close>

theorem second_coordinator_rejected:
  "(serverWS (session W) = Some c0 \<longrightarrow>
      step tsc moduleUrl (ServerUpgrade w) W = Inr (W, [Send w (JObj [(''type'', JStr ''error'')])]))
   \<and> (js_serverWS (js_session J) = Some c0 \<longrightarrow>
      js_step (ServerUpgrade w) J = Inr (J, [Send w (JObj [(''type'', JStr ''error'')])]))"
  by (simp add: step_def js_step_def handleServerConnection_def js_handleServerConnection_def
        errorMsg_def)

theorem second_coordinator_rejected_witness:
  "step RestHelper ''stun:a'' (ServerUpgrade 2) attachedWorld =
     Inr (attachedWorld, [Send 2 (JObj [(''type'', JStr ''error'')])])
   \<and> js_step (ServerUpgrade 2) js_attachedWorld =
     Inr (js_attachedWorld, [Send 2 (JObj [(''type'', JStr ''error'')])])"
  using second_coordinator_rejected [of attachedWorld 1 RestHelper "''stun:a''" 2 js_attachedWorld]
  by (simp add: attachedWorld_def js_attachedWorld_def)

subsection \<open>Admission of a participant\<close>

text \<open>
  C5. While no coordinator is attached, an upgrade request on the participants' path is
  answered with one \<^verbatim>\<open>error\<close> frame to that connection and nothing else: no
  \<^verbatim>\<open>hello\<close>, nothing to any other connection, and the whole state is as before (the
  registry and the counter are unchanged, no listener is attached).
\<close>

theorem participant_rejected_without_coordinator:
  "serverWS (session W) = None \<Longrightarrow>
     step tsc moduleUrl (ClientUpgrade w) W = Inr (W, [Send w (JObj [(''type'', JStr ''error'')])])"
  by (simp add: step_def handleClientConnection_def errorMsg_def)

theorem participant_rejected_without_coordinator_witness:
  "step RestHelper ''stun:a'' (ClientUpgrade 2) (main ''stun:a'') =
     Inr (main ''stun:a'', [Send 2 (JObj [(''type'', JStr ''error'')])])"
  using participant_rejected_without_coordinator [of "main ''stun:a''" RestHelper "''stun:a''" 2]
  by (simp add: main_def Session_def)

subsection \<open>Relay from the coordinator\<close>

text \<open>
  C4, amended. A frame of the coordinator that parses to an object with a
  \<^verbatim>\<open>nodeID\<close> field \<open>v\<close>: when \<open>v\<close> is the number \<open>k\<close> and connection \<open>c\<close> is
  registered under \<open>k\<close>, exactly one frame is sent, to \<open>c\<close>. It has the fields of the
  object other than \<^verbatim>\<open>nodeID\<close> (and, in app.ts built with the helper
  \<^verbatim>\<open>__rest\<close>, other than \<^verbatim>\<open>__proto__\<close>), in the same order, with their values as
  \<^verbatim>\<open>JSON.stringify\<close> writes them; so when the object holds no infinity and no
  negative zero, and has no field \<^verbatim>\<open>__proto__\<close> or the object rest is the
  language's, the frame is the object without its \<^verbatim>\<open>nodeID\<close> field, every other
  field kept with its value. When no participant is registered under \<open>v\<close>, nothing is
  sent to any connection, the coordinator included. The session is unchanged in both
  cases. In app.ts, for either build, and in app.js.
\<close>

theorem relay_from_coordinator:
  "map_of kvs ''nodeID'' = Some v \<Longrightarrow>
     (addresses v k \<and> clients s k = Some c \<longrightarrow>
        handleServerMessage tsc (Some (JObj kvs)) s =
          Inr (s, [Send c (JObj (map (map_prod id JSON_stringify)
                     (filter (\<lambda>kv. fst kv \<noteq> ''nodeID''
                                 \<and> (tsc = RestHelper \<longrightarrow> fst kv \<noteq> ''__proto__'')) kvs)))])
        \<and> (wireExact (JObj kvs) \<and> (tsc = NativeRest \<or> map_of kvs ''__proto__'' = None) \<longrightarrow>
             handleServerMessage tsc (Some (JObj kvs)) s =
               Inr (s, [Send c (JObj (filter (\<lambda>kv. fst kv \<noteq> ''nodeID'') kvs))])))
     \<and> ((\<forall>n. addresses v n \<longrightarrow> clients s n = None) \<longrightarrow>
        handleServerMessage tsc (Some (JObj kvs)) s = Inr (s, []))
     \<and> (addresses v k \<and> js_clients j k = Some c \<longrightarrow>
        js_handleServerMessage (Some (JObj kvs)) j =
          Inr (j, [Send c (JObj (map (map_prod id JSON_stringify)
                     (filter (\<lambda>kv. fst kv \<noteq> ''nodeID'') kvs)))])
        \<and> (wireExact (JObj kvs) \<longrightarrow>
             js_handleServerMessage (Some (JObj kvs)) j =
               Inr (j, [Send c (JObj (filter (\<lambda>kv. fst kv \<noteq> ''nodeID'') kvs))])))
     \<and> ((\<forall>n. addresses v n \<longrightarrow> js_clients j n = None) \<longrightarrow>
        js_handleServerMessage (Some (JObj kvs)) j = Inr (j, []))"
proof -
  assume v: "map_of kvs ''nodeID'' = Some v"
  have general: "JSON_stringify (JObj (objectRest b kvs)) =
      JObj (map (map_prod id JSON_stringify)
             (filter (\<lambda>kv. fst kv \<noteq> ''nodeID''
                         \<and> (b = RestHelper \<longrightarrow> fst kv \<noteq> ''__proto__'')) kvs))" for b
    by (simp add: objectRest_filter)
  have plain: "JSON_stringify (JObj (objectRest b kvs)) =
      JObj (filter (\<lambda>kv. fst kv \<noteq> ''nodeID'') kvs)"
    if "wireExact (JObj kvs)" "b = NativeRest \<or> map_of kvs ''__proto__'' = None" for b
    using wireExact_stringify [OF wireExact_filter [OF that(1)]] objectRest_plain [OF that(2)]
    by simp
  have 1: "handleServerMessage tsc (Some (JObj kvs)) s =
             Inr (s, [Send c (JSON_stringify (JObj (objectRest tsc kvs)))])"
    if "addresses v k" "clients s k = Some c"
    using that v by (simp add: handleServerMessage_object mapGet_addressed)
  have 2: "handleServerMessage tsc (Some (JObj kvs)) s = Inr (s, [])"
    if "\<forall>n. addresses v n \<longrightarrow> clients s n = None"
    using mapGet_None [OF that] v by (simp add: handleServerMessage_object)
  have 3: "js_handleServerMessage (Some (JObj kvs)) j =
             Inr (j, [Send c (JSON_stringify (JObj (objectRest NativeRest kvs)))])"
    if "addresses v k" "js_clients j k = Some c"
    using that v by (simp add: js_handleServerMessage_object mapGet_addressed)
  have 4: "js_handleServerMessage (Some (JObj kvs)) j = Inr (j, [])"
    if "\<forall>n. addresses v n \<longrightarrow> js_clients j n = None"
    using mapGet_None [OF that] v by (simp add: js_handleServerMessage_object)
  show ?thesis
  proof (intro conjI impI)
    assume a: "addresses v k \<and> clients s k = Some c"
    show "handleServerMessage tsc (Some (JObj kvs)) s =
          Inr (s, [Send c (JObj (map (map_prod id JSON_stringify)
                     (filter (\<lambda>kv. fst kv \<noteq> ''nodeID''
                                 \<and> (tsc = RestHelper \<longrightarrow> fst kv \<noteq> ''__proto__'')) kvs)))])"
      using 1 a general [of tsc] by simp
    assume "wireExact (JObj kvs) \<and> (tsc = NativeRest \<or> map_of kvs ''__proto__'' = None)"
    then show "handleServerMessage tsc (Some (JObj kvs)) s =
               Inr (s, [Send c (JObj (filter (\<lambda>kv. fst kv \<noteq> ''nodeID'') kvs))])"
      using 1 a plain [of tsc] by simp
  next
    assume "\<forall>n. addresses v n \<longrightarrow> clients s n = None"
    then show "handleServerMessage tsc (Some (JObj kvs)) s = Inr (s, [])" by (rule 2)
  next
    assume a: "addresses v k \<and> js_clients j k = Some c"
    show "js_handleServerMessage (Some (JObj kvs)) j =
          Inr (j, [Send c (JObj (map (map_prod id JSON_stringify)
                     (filter (\<lambda>kv. fst kv \<noteq> ''nodeID'') kvs)))])"
      using 3 a general [of NativeRest] by simp
    assume "wireExact (JObj kvs)"
    then show "js_handleServerMessage (Some (JObj kvs)) j =
               Inr (j, [Send c (JObj (filter (\<lambda>kv. fst kv \<noteq> ''nodeID'') kvs))])"
      using 3 a plain [of NativeRest] by simp
  next
    assume "\<forall>n. addresses v n \<longrightarrow> js_clients j n = None"
    then show "js_handleServerMessage (Some (JObj kvs)) j = Inr (j, [])" by (rule 4)
  qed
qed

lemma seven_addressed: "addresses (JNum (Finite 7)) 7"
  by (simp add: addresses_def)

theorem relay_from_coordinator_witness:
  "handleServerMessage RestHelper (Some (JObj [(''nodeID'', JNum (Finite 7)), (''foo'', JStr ''bar'')]))
       (session attachedWorld) =
     Inr (session attachedWorld, [Send 4 (JObj [(''foo'', JStr ''bar'')])])
   \<and> handleServerMessage RestHelper (Some (JObj [(''nodeID'', JNum (Finite 7)), (''foo'', JStr ''bar'')]))
       (session (main ''stun:a'')) =
     Inr (session (main ''stun:a''), [])
   \<and> js_handleServerMessage (Some (JObj [(''nodeID'', JNum (Finite 7)), (''foo'', JStr ''bar'')]))
       (js_session js_attachedWorld) =
     Inr (js_session js_attachedWorld, [Send 4 (JObj [(''foo'', JStr ''bar'')])])
   \<and> js_handleServerMessage (Some (JObj [(''nodeID'', JNum (Finite 7)), (''foo'', JStr ''bar'')]))
       (js_session js_main) =
     Inr (js_session js_main, [])"
  using seven_addressed
    relay_from_coordinator [where kvs = "[(''nodeID'', JNum (Finite 7)), (''foo'', JStr ''bar'')]"
      and v = "JNum (Finite 7)" and k = 7 and s = "session attachedWorld" and c = 4
      and j = "js_session js_attachedWorld" and tsc = RestHelper]
    relay_from_coordinator [where kvs = "[(''nodeID'', JNum (Finite 7)), (''foo'', JStr ''bar'')]"
      and v = "JNum (Finite 7)" and k = 7 and s = "session (main ''stun:a'')" and c = 4
      and j = "js_session js_main" and tsc = RestHelper]
  by (simp add: attachedWorld_def js_attachedWorld_def main_def Session_def js_main_def
        js_Session_def)

text \<open>
  The claim as stated, every other field unchanged, fails in two ways. A number beyond
  the range of a double is parsed as an infinity and written \<^verbatim>\<open>null\<close>: the
  coordinator's \<^verbatim>\<open>{"nodeID":7,"x":1e400}\<close> reaches participant 7 as
  \<^verbatim>\<open>{"x":null}\<close>, in app.ts and in app.js. And app.ts built with the helper
  \<^verbatim>\<open>__rest\<close> loses a field \<^verbatim>\<open>__proto__\<close>:
  \<^verbatim>\<open>{"nodeID":7,"__proto__":{"a":1},"b":2}\<close> reaches participant 7 as
  \<^verbatim>\<open>{"b":2}\<close>.
\<close>

theorem relay_from_coordinator_lossy:
  "handleServerMessage NativeRest
       (Some (JObj [(''nodeID'', JNum (Finite 7)), (''x'', JNum PosInfinity)]))
       (session attachedWorld) =
     Inr (session attachedWorld, [Send 4 (JObj [(''x'', JNull)])])
   \<and> js_handleServerMessage
       (Some (JObj [(''nodeID'', JNum (Finite 7)), (''x'', JNum PosInfinity)]))
       (js_session js_attachedWorld) =
     Inr (js_session js_attachedWorld, [Send 4 (JObj [(''x'', JNull)])])
   \<and> handleServerMessage RestHelper
       (Some (JObj [(''nodeID'', JNum (Finite 7)),
                    (''__proto__'', JObj [(''a'', JNum (Finite 1))]),
                    (''b'', JNum (Finite 2))]))
       (session attachedWorld) =
     Inr (session attachedWorld, [Send 4 (JObj [(''b'', JNum (Finite 2))])])"
  by (simp add: handleServerMessage_object js_handleServerMessage_object mapGet_def
      attachedWorld_def js_attachedWorld_def)

subsection \<open>Relay from a participant\<close>




lemma warnDeclared_throws:
  "m ''nodeID'' = Some v \<Longrightarrow> toStringThrows v \<Longrightarrow> warnDeclared (m ''nodeID'') = Inl TypeError"
  by (simp add: warnDeclared_def interpolate_def)








subsection \<open>The frames of a successful admission\<close>

text \<open>
  C7, amended. When a coordinator \<open>c\<close> is attached, the admission of a participant on
  connection \<open>w\<close> assigns the counter's value, registers \<open>w\<close> under it, and sends
  exactly two frames: to \<open>w\<close> a \<^verbatim>\<open>hello\<close> with the assigned identifier and the
  signaling URL, and to \<open>c\<close> a frame of type \<^verbatim>\<open>clientConnected\<close> (the name on the
  wire; there is no \<^verbatim>\<open>participantConnected\<close>) whose \<^verbatim>\<open>nodeID\<close> is the assigned
  identifier. In app.ts and in app.js.
\<close>

theorem admission_frames:
  "(serverWS s = Some c \<longrightarrow>
      handleClientConnection w s =
        Inr (s\<lparr>clients := (clients s)(nextNodeID s \<mapsto> w),
               nextNodeID := increment (nextNodeID s)\<rparr>,
             [Send w (JObj [(''type'', JStr ''hello''),
                            (''nodeID'', JNum (Finite (of_nat (nextNodeID s)))),
                            (''iceServerUrl'', JStr (iceServerUrl s))]),
              Send c (JObj [(''type'', JStr ''clientConnected''),
                            (''nodeID'', JNum (Finite (of_nat (nextNodeID s))))]),
              On w (ClientMessage (nextNodeID s)), On w (ClientClose (nextNodeID s))]))
   \<and> (js_serverWS j = Some c \<longrightarrow>
      js_handleClientConnection w j =
        Inr (j\<lparr>js_clients := (js_clients j)(js_nextNodeID j \<mapsto> w),
               js_nextNodeID := increment (js_nextNodeID j)\<rparr>,
             [Send w (JObj [(''type'', JStr ''hello''),
                            (''nodeID'', JNum (Finite (of_nat (js_nextNodeID j)))),
                            (''iceServerUrl'', JStr js_iceServerUrl)]),
              Send c (JObj [(''type'', JStr ''clientConnected''),
                            (''nodeID'', JNum (Finite (of_nat (js_nextNodeID j))))]),
              On w (ClientMessage (js_nextNodeID j)), On w (ClientClose (js_nextNodeID j))]))"
  by (simp add: handleClientConnection_def js_handleClientConnection_def sendTo_def Let_def
      helloMsg_def clientConnectedMsg_def)

theorem admission_frames_witness:
  "sentTo 5 (effectsOf (handleClientConnection 5 (session attachedWorld))) =
     [JObj [(''type'', JStr ''hello''), (''nodeID'', JNum (Finite 8)), (''iceServerUrl'', JStr ''stun:a'')]]
   \<and> sentTo 1 (effectsOf (handleClientConnection 5 (session attachedWorld))) =
     [JObj [(''type'', JStr ''clientConnected''), (''nodeID'', JNum (Finite 8))]]
   \<and> sentTo 1 (effectsOf (js_handleClientConnection 5 (js_session js_attachedWorld))) =
     [JObj [(''type'', JStr ''clientConnected''), (''nodeID'', JNum (Finite 8))]]"
  using admission_frames [of "session attachedWorld" 1 5 "js_session js_attachedWorld"]
  by (simp add: attachedWorld_def js_attachedWorld_def effectsOf_def)

text \<open>
  The claim as stated fails on the name of the notification: the one frame that the
  coordinator receives at an admission has the type \<^verbatim>\<open>clientConnected\<close>.
\<close>

theorem admission_notice_is_clientConnected:
  "map (field ''type'') (sentTo 1 (effectsOf (handleClientConnection 5 (session attachedWorld))))
     = [Some (JStr ''clientConnected'')]
   \<and> Some (JStr ''participantConnected'') \<notin>
       set (map (field ''type'')
              (sentTo 1 (effectsOf (handleClientConnection 5 (session attachedWorld)))))"
  by (simp add: handleClientConnection_def sendTo_def Let_def attachedWorld_def effectsOf_def
      clientConnectedMsg_def helloMsg_def field_def)

subsection \<open>Exceptions\<close>

lemma handleServerMessage_keeps: "\<exists>es. handleServerMessage tsc d s = Inr (s, es)"
  by (auto simp: handleServerMessage_def try_catch_def split: sum.splits option.splits prod.splits)

lemma handleClientMessage_keeps: "\<exists>es. handleClientMessage n d s = Inr (s, es)"
  by (auto simp: handleClientMessage_def try_catch_def split: sum.splits option.splits)

lemma js_handleServerMessage_keeps: "\<exists>es. js_handleServerMessage d j = Inr (j, es)"
  by (auto simp: js_handleServerMessage_def try_catch_def split: sum.splits option.splits prod.splits)

lemma js_handleClientMessage_keeps: "\<exists>es. js_handleClientMessage n d j = Inr (j, es)"
  by (auto simp: js_handleClientMessage_def try_catch_def split: sum.splits option.splits)

lemma handleServerConnection_returns: "\<exists>s' es. handleServerConnection g w s = Inr (s', es)"
  by (simp add: handleServerConnection_def)

lemma handleClientConnection_returns: "\<exists>s' es. handleClientConnection w s = Inr (s', es)"
  by (auto simp: handleClientConnection_def sendTo_def Let_def)

lemma js_handleServerConnection_returns: "\<exists>s' es. js_handleServerConnection w j = Inr (s', es)"
  by (simp add: js_handleServerConnection_def)

lemma js_handleClientConnection_returns: "\<exists>s' es. js_handleClientConnection w j = Inr (s', es)"
  by (auto simp: js_handleClientConnection_def sendTo_def Let_def)

lemma call_returns: "\<exists>s' es. call tsc l d s = Inr (s', es)"
  using handleServerMessage_keeps [of tsc d s] handleClientMessage_keeps [of _ d s]
  by (cases l) (simp_all add: serverClose_def clientClose_def, blast+)

lemma js_call_returns: "\<exists>s' es. js_call l d j = Inr (s', es)"
  using js_handleServerMessage_keeps [of d j] js_handleClientMessage_keeps [of _ d j]
  by (cases l) (simp_all add: js_serverClose_def js_clientClose_def, blast+)

lemma emit_returns: "\<exists>s' es. emit tsc ls d s = Inr (s', es)"
proof (induction ls arbitrary: s)
  case Nil
  show ?case by simp
next
  case (Cons l ls)
  obtain s' es where c: "call tsc l d s = Inr (s', es)"
    using call_returns [of tsc l d s] by auto
  obtain s'' es' where "emit tsc ls d s' = Inr (s'', es')"
    using Cons.IH [of s'] by auto
  with c show ?case by simp
qed

lemma js_emit_returns: "\<exists>s' es. js_emit ls d j = Inr (s', es)"
proof (induction ls arbitrary: j)
  case Nil
  show ?case by simp
next
  case (Cons l ls)
  obtain j' es where c: "js_call l d j = Inr (j', es)"
    using js_call_returns [of l d j] by auto
  obtain j'' es' where "js_emit ls d j' = Inr (j'', es')"
    using Cons.IH [of j'] by auto
  with c show ?case by simp
qed

lemma handle_returns: "\<exists>s' es. handle tsc g ev W = Inr (s', es)"
  by (cases ev)
     (simp_all add: handleServerConnection_returns handleClientConnection_returns emit_returns)

lemma js_handle_returns: "\<exists>s' es. js_handle ev J = Inr (s', es)"
  by (cases ev)
     (simp_all add: js_handleServerConnection_returns js_handleClientConnection_returns
        js_emit_returns)

lemma step_returns: "\<exists>s' es. step tsc g ev W = Inr (s', es)"
proof -
  obtain s' es where "handle tsc g ev W = Inr (s', es)"
    using handle_returns [of tsc g ev W] by auto
  then show ?thesis by (simp add: step_def)
qed

lemma js_step_returns: "\<exists>s' es. js_step ev J = Inr (s', es)"
proof -
  obtain s' es where "js_handle ev J = Inr (s', es)"
    using js_handle_returns [of ev J] by auto
  then show ?thesis by (simp add: js_step_def)
qed

lemma run_returns: "\<exists>s' es. run tsc g evs W = Inr (s', es)"
proof (induction evs arbitrary: W)
  case Nil
  show ?case by simp
next
  case (Cons ev evs)
  obtain W' es where c: "step tsc g ev W = Inr (W', es)"
    using step_returns [of tsc g ev W] by auto
  obtain W'' es' where "run tsc g evs W' = Inr (W'', es')"
    using Cons.IH [of W'] by auto
  with c show ?case by simp
qed

lemma js_run_returns: "\<exists>s' es. js_run evs J = Inr (s', es)"
proof (induction evs arbitrary: J)
  case Nil
  show ?case by simp
next
  case (Cons ev evs)
  obtain J' es where c: "js_step ev J = Inr (J', es)"
    using js_step_returns [of ev J] by auto
  obtain J'' es' where "js_run evs J' = Inr (J'', es')"
    using Cons.IH [of J'] by auto
  with c show ?case by simp
qed

text \<open>The dropped frames.\<close>

lemma handleServerMessage_unaddressed:
  "field ''nodeID'' v = None \<Longrightarrow> handleServerMessage tsc (Some v) s = Inr (s, [])"
  by (cases v)
     (simp_all add: handleServerMessage_def try_catch_def JSON_parse_def field_def mapHas_def
        interpolate_def)

lemma js_handleServerMessage_unaddressed:
  "field ''nodeID'' v = None \<Longrightarrow> js_handleServerMessage (Some v) j = Inr (j, [])"
  by (cases v)
     (simp_all add: js_handleServerMessage_def try_catch_def JSON_parse_def field_def mapHas_def
        interpolate_def)

lemma handleServerMessage_unparseable: "handleServerMessage tsc None s = Inr (s, [])"
  by (simp add: handleServerMessage_def try_catch_def JSON_parse_def)

lemma js_handleServerMessage_unparseable: "js_handleServerMessage None j = Inr (j, [])"
  by (simp add: js_handleServerMessage_def try_catch_def JSON_parse_def)

lemma handleClientMessage_unparseable: "handleClientMessage n None s = Inr (s, [])"
  by (simp add: handleClientMessage_def try_catch_def JSON_parse_def)

lemma js_handleClientMessage_unparseable: "js_handleClientMessage n None j = Inr (j, [])"
  by (simp add: js_handleClientMessage_def try_catch_def JSON_parse_def)

lemma handleClientMessage_null: "handleClientMessage n (Some JNull) s = Inr (s, [])"
  by (simp add: handleClientMessage_def try_catch_def JSON_parse_def)

lemma js_handleClientMessage_null: "js_handleClientMessage n (Some JNull) j = Inr (j, [])"
  by (simp add: js_handleClientMessage_def try_catch_def JSON_parse_def)

lemma handleClientMessage_no_coordinator:
  "serverWS s = None \<Longrightarrow> handleClientMessage n d s = Inr (s, [])"
  by (auto simp: handleClientMessage_def try_catch_def split: sum.splits)

lemma js_handleClientMessage_no_coordinator:
  "js_serverWS j = None \<Longrightarrow> js_handleClientMessage n d j = Inr (j, [])"
  by (auto simp: js_handleClientMessage_def try_catch_def sendTo_def split: sum.splits)

text \<open>
  C9. No handler lets an exception out. The two message handlers return normally on
  every frame and leave the session as it was; in particular an unparseable frame, the
  frame \<^verbatim>\<open>null\<close>, a coordinator frame without \<^verbatim>\<open>nodeID\<close> and a participant
  frame while no coordinator is attached (where app.js throws \<^verbatim>\<open>TypeError\<close> inside
  its \<^verbatim>\<open>try\<close>) are dropped: nothing is sent. The two admission handlers and the two
  close listeners return normally in every state, and so does the dispatch of every
  sequence of upgrades, frames and closes, in any order. In app.ts and in app.js.
\<close>

theorem no_handler_throws:
  "(\<exists>es. handleServerMessage tsc d s = Inr (s, es))
   \<and> (\<exists>es. handleClientMessage n d s = Inr (s, es))
   \<and> (\<exists>es. js_handleServerMessage d j = Inr (j, es))
   \<and> (\<exists>es. js_handleClientMessage n d j = Inr (j, es))
   \<and> handleServerMessage tsc None s = Inr (s, [])
   \<and> handleClientMessage n None s = Inr (s, [])
   \<and> js_handleServerMessage None j = Inr (j, [])
   \<and> js_handleClientMessage n None j = Inr (j, [])
   \<and> handleServerMessage tsc (Some JNull) s = Inr (s, [])
   \<and> handleClientMessage n (Some JNull) s = Inr (s, [])
   \<and> js_handleServerMessage (Some JNull) j = Inr (j, [])
   \<and> js_handleClientMessage n (Some JNull) j = Inr (j, [])
   \<and> (field ''nodeID'' v = None \<longrightarrow> handleServerMessage tsc (Some v) s = Inr (s, []))
   \<and> (field ''nodeID'' v = None \<longrightarrow> js_handleServerMessage (Some v) j = Inr (j, []))
   \<and> (serverWS s = None \<longrightarrow> handleClientMessage n d s = Inr (s, []))
   \<and> (js_serverWS j = None \<longrightarrow> js_handleClientMessage n d j = Inr (j, []))
   \<and> (\<exists>r. handleServerConnection g w s = Inr r)
   \<and> (\<exists>r. handleClientConnection w s = Inr r)
   \<and> (\<exists>r. js_handleServerConnection w j = Inr r)
   \<and> (\<exists>r. js_handleClientConnection w j = Inr r)
   \<and> (\<exists>r. serverClose s = Inr r) \<and> (\<exists>r. clientClose n s = Inr r)
   \<and> (\<exists>r. js_serverClose j = Inr r) \<and> (\<exists>r. js_clientClose n j = Inr r)
   \<and> (\<exists>r. run tsc g evs W = Inr r)
   \<and> (\<exists>r. js_run evs J = Inr r)"
proof -
  have 1: "field ''nodeID'' JNull = None" by (simp add: field_def)
  show ?thesis
    apply (intro conjI impI)
    apply (rule handleServerMessage_keeps handleClientMessage_keeps js_handleServerMessage_keeps
        js_handleClientMessage_keeps handleServerMessage_unparseable handleClientMessage_unparseable
        js_handleServerMessage_unparseable js_handleClientMessage_unparseable
        handleServerMessage_unaddressed [OF 1] js_handleServerMessage_unaddressed [OF 1]
        handleClientMessage_null js_handleClientMessage_null
        handleServerConnection_returns handleClientConnection_returns
        js_handleServerConnection_returns js_handleClientConnection_returns
        run_returns js_run_returns
      | erule handleServerMessage_unaddressed js_handleServerMessage_unaddressed
          handleClientMessage_no_coordinator js_handleClientMessage_no_coordinator
      | simp add: serverClose_def clientClose_def js_serverClose_def js_clientClose_def)+
    done
qed


theorem no_handler_throws_witness:
  "handleClientMessage 7 (Some (JObj [(''x'', JNum (Finite 1))])) (session (main ''stun:a''))
     = Inr (session (main ''stun:a''), [])
   \<and> js_handleClientMessage 7 (Some (JObj [(''x'', JNum (Finite 1))])) (js_session js_main)
     = Inr (js_session js_main, [])
   \<and> handleServerMessage RestHelper (Some (JObj [(''foo'', JStr ''bar'')])) (session attachedWorld)
     = Inr (session attachedWorld, [])
   \<and> js_handleServerMessage (Some (JObj [(''foo'', JStr ''bar'')])) (js_session js_attachedWorld)
     = Inr (js_session js_attachedWorld, [])"
  using
    no_handler_throws [where tsc = RestHelper and s = "session (main ''stun:a'')" and j = "js_session js_main" and n = 7
          and d = "Some (JObj [(''x'', JNum (Finite 1))])"]
    no_handler_throws [where tsc = RestHelper and s = "session attachedWorld" and j = "js_session js_attachedWorld"
          and v = "JObj [(''foo'', JStr ''bar'')]"]
  by (simp add: main_def Session_def js_main_def js_Session_def field_def)

subsection \<open>The URL of the coordinator's hello\<close>

lemma call_url:
  assumes "call tsc l d s = Inr (s', es)"
  shows "iceServerUrl s' = iceServerUrl s"
proof (cases l)
  case ServerMessage
  with assms handleServerMessage_keeps [of tsc d s] show ?thesis by auto
next
  case ServerClose
  with assms show ?thesis by (auto simp: serverClose_def)
next
  case (ClientMessage n)
  with assms handleClientMessage_keeps [of n d s] show ?thesis by auto
next
  case (ClientClose n)
  with assms show ?thesis by (auto simp: clientClose_def)
qed

lemma emit_url: "emit tsc ls d s = Inr (s', es) \<Longrightarrow> iceServerUrl s' = iceServerUrl s"
proof (induction ls arbitrary: s es)
  case Nil
  then show ?case by simp
next
  case (Cons l ls)
  then show ?case
    by (auto split: sum.splits prod.splits dest!: call_url)
qed

lemma handle_url: "handle tsc g ev W = Inr (s', es) \<Longrightarrow> iceServerUrl s' = iceServerUrl (session W)"
  by (cases ev)
     (auto simp: handleServerConnection_def handleClientConnection_def sendTo_def Let_def
        split: if_splits option.splits dest: emit_url)

lemma step_url:
  "step tsc g ev W = Inr (W', es) \<Longrightarrow> iceServerUrl (session W') = iceServerUrl (session W)"
  by (auto simp: step_def split: sum.splits dest: handle_url)

lemma run_url:
  "run tsc g evs W = Inr (W', es) \<Longrightarrow> iceServerUrl (session W') = iceServerUrl (session W)"
proof (induction evs arbitrary: W es)
  case Nil
  then show ?case by simp
next
  case (Cons ev evs)
  then show ?case
    by (auto split: sum.splits prod.splits dest!: step_url)
qed

text \<open>
  C8. In every state that the process reaches from its start with the configured URL
  \<open>moduleUrl\<close> and in which no coordinator is attached, the admission of a coordinator
  on connection \<open>w\<close> attaches it and sends exactly one frame, to \<open>w\<close>: a
  \<^verbatim>\<open>hello\<close> with \<^verbatim>\<open>nodeID\<close> 0 and the URL the session was constructed with,
  which is the configured one. (The handler reads the module constant, not the field
  of the session; the two agree because line 127 of app.ts constructs the session from
  that constant and nothing assigns the field afterwards.)
\<close>

theorem coordinator_hello:
  "run tsc moduleUrl evs (main moduleUrl) = Inr (W, es) \<Longrightarrow> serverWS (session W) = None \<Longrightarrow>
     step tsc moduleUrl (ServerUpgrade w) W =
       Inr (\<lparr>session = (session W)\<lparr>serverWS := Some w\<rparr>,
             listeners = (listeners W)(w := listeners W w @ [ServerMessage, ServerClose])\<rparr>,
            [On w ServerMessage, On w ServerClose,
             Send w (JObj [(''type'', JStr ''hello''), (''nodeID'', JNum (Finite 0)),
                           (''iceServerUrl'', JStr (iceServerUrl (session W)))])])
     \<and> iceServerUrl (session W) = moduleUrl"
proof -
  assume r: "run tsc moduleUrl evs (main moduleUrl) = Inr (W, es)" and n: "serverWS (session W) = None"
  have u: "iceServerUrl (session W) = moduleUrl"
    using run_url [OF r] by (simp add: main_def Session_def)
  show ?thesis
    using n u by (simp add: step_def handleServerConnection_def helloMsg_def serverNodeID_def)
qed


lemma run_example:
  "run RestHelper ''stun:a'' [ServerUpgrade 1, Close 1] (main ''stun:a'') =
     Inr (leftWorld,
          [On 1 ServerMessage, On 1 ServerClose,
           Send 1 (JObj [(''type'', JStr ''hello''), (''nodeID'', JNum (Finite 0)),
                         (''iceServerUrl'', JStr ''stun:a'')])])"
  by (simp add: step_def handleServerConnection_def main_def Session_def leftWorld_def
      helloMsg_def serverNodeID_def serverClose_def)

theorem coordinator_hello_witness:
  "step RestHelper ''stun:a'' (ServerUpgrade 2) leftWorld =
       Inr (\<lparr>session = (session leftWorld)\<lparr>serverWS := Some 2\<rparr>,
             listeners = (listeners leftWorld)(2 := listeners leftWorld 2 @ [ServerMessage, ServerClose])\<rparr>,
            [On 2 ServerMessage, On 2 ServerClose,
             Send 2 (JObj [(''type'', JStr ''hello''), (''nodeID'', JNum (Finite 0)),
                           (''iceServerUrl'', JStr ''stun:a'')])])"
proof -
  have n: "serverWS (session leftWorld) = None"
    by (simp add: leftWorld_def)
  from coordinator_hello [OF run_example n, of 2] show ?thesis
    by simp
qed

subsection \<open>Disconnects\<close>

text \<open>
  C6. The close of a connection \<open>w\<close> whose close listener is that of participant
  \<open>K\<close> removes the entry of \<open>K\<close> from the registry and changes nothing else; it
  sends nothing, so the coordinator is not notified; a coordinator frame addressed to
  \<open>K\<close> is then dropped, with nothing sent. The close of a connection \<open>c\<close> whose
  close listener is the coordinator's clears the slot and changes nothing else (the
  registry is as before); a new coordinator \<open>w'\<close> can then attach and receives
  \<^verbatim>\<open>hello\<close> with \<^verbatim>\<open>nodeID\<close> 0.
\<close>

theorem disconnect_cleanup:
  "(filter onClose (listeners W w) = [ClientClose K] \<longrightarrow>
      step tsc g (Close w) W =
        Inr (W\<lparr>session := (session W)\<lparr>clients := (clients (session W))(K := None)\<rparr>\<rparr>, [])
      \<and> (map_of kvs ''nodeID'' = Some (JNum (Finite (of_nat K))) \<longrightarrow>
           handleServerMessage tsc (Some (JObj kvs))
               ((session W)\<lparr>clients := (clients (session W))(K := None)\<rparr>) =
             Inr ((session W)\<lparr>clients := (clients (session W))(K := None)\<rparr>, [])))
   \<and> (filter onClose (listeners W c) = [ServerClose] \<longrightarrow>
      step tsc g (Close c) W = Inr (W\<lparr>session := (session W)\<lparr>serverWS := None\<rparr>\<rparr>, [])
      \<and> step tsc g (ServerUpgrade w') (W\<lparr>session := (session W)\<lparr>serverWS := None\<rparr>\<rparr>) =
          Inr (\<lparr>session = (session W)\<lparr>serverWS := Some w'\<rparr>,
                listeners = (listeners W)(w' := listeners W w' @ [ServerMessage, ServerClose])\<rparr>,
               [On w' ServerMessage, On w' ServerClose,
                Send w' (JObj [(''type'', JStr ''hello''), (''nodeID'', JNum (Finite 0)),
                               (''iceServerUrl'', JStr g)])]))"
  by (simp add: step_def clientClose_def serverClose_def handleServerMessage_object
      mapGet_number handleServerConnection_def helloMsg_def serverNodeID_def)

theorem disconnect_cleanup_witness:
  "step RestHelper ''stun:a'' (Close 4) attachedWorld =
     Inr (attachedWorld\<lparr>session := (session attachedWorld)\<lparr>clients := Map.empty\<rparr>\<rparr>, [])
   \<and> handleServerMessage RestHelper (Some (JObj [(''nodeID'', JNum (Finite 7)), (''foo'', JStr ''bar'')]))
        ((session attachedWorld)\<lparr>clients := Map.empty\<rparr>) =
      Inr ((session attachedWorld)\<lparr>clients := Map.empty\<rparr>, [])
   \<and> step RestHelper ''stun:a'' (Close 1) attachedWorld =
     Inr (attachedWorld\<lparr>session := (session attachedWorld)\<lparr>serverWS := None\<rparr>\<rparr>, [])
   \<and> clients ((session attachedWorld)\<lparr>serverWS := None\<rparr>) 7 = Some 4"
  using disconnect_cleanup [of attachedWorld 4 7 RestHelper "''stun:a''" "[(''nodeID'', JNum (Finite 7)), (''foo'', JStr ''bar'')]" 1 2]
  by (simp add: attachedWorld_def)

subsection \<open>Identifiers\<close>

lemma assigned_append: "assigned (es @ es') = assigned es @ assigned es'"
  by (induction es rule: assigned.induct) simp_all

lemma handleServerMessage_sends:
  "handleServerMessage tsc d s = Inr (s', es) \<Longrightarrow> s' = s \<and> assigned es = []"
  by (auto simp: handleServerMessage_def try_catch_def split: sum.splits option.splits prod.splits if_splits)

lemma handleClientMessage_sends:
  "handleClientMessage n d s = Inr (s', es) \<Longrightarrow> s' = s \<and> assigned es = []"
  by (auto simp: handleClientMessage_def try_catch_def split: sum.splits option.splits)

lemma call_assigns:
  assumes "call tsc l d s = Inr (s', es)"
  shows "assigned es = [] \<and> nextNodeID s' = nextNodeID s \<and> dom (clients s') \<subseteq> dom (clients s)"
proof (cases l)
  case ServerMessage
  with assms handleServerMessage_sends [of tsc d s s' es] show ?thesis by auto
next
  case ServerClose
  with assms show ?thesis by (auto simp: serverClose_def)
next
  case (ClientMessage n)
  with assms handleClientMessage_sends [of n d s s' es] show ?thesis by auto
next
  case (ClientClose n)
  with assms show ?thesis by (auto simp: clientClose_def split: if_splits)
qed

lemma emit_assigns:
  "emit tsc ls d s = Inr (s', es) \<Longrightarrow>
     assigned es = [] \<and> nextNodeID s' = nextNodeID s \<and> dom (clients s') \<subseteq> dom (clients s)"
proof (induction ls arbitrary: s es)
  case Nil
  then show ?case by simp
next
  case (Cons l ls)
  from Cons.prems obtain s1 es1 es2 where
    c: "call tsc l d s = Inr (s1, es1)" and e: "emit tsc ls d s1 = Inr (s', es2)" and es: "es = es1 @ es2"
    by (auto split: sum.splits prod.splits)
  from call_assigns [OF c] Cons.IH [OF e] es show ?case
    by (simp add: assigned_append) blast
qed

lemma handle_assigns:
  assumes "handle tsc g ev W = Inr (s', es)"
  shows "(assigned es = [] \<and> nextNodeID s' = nextNodeID (session W)
            \<and> dom (clients s') \<subseteq> dom (clients (session W)))
       \<or> (assigned es = [nextNodeID (session W)]
            \<and> nextNodeID s' = increment (nextNodeID (session W))
            \<and> dom (clients s') = insert (nextNodeID (session W)) (dom (clients (session W))))"
proof (cases ev)
  case (ServerUpgrade w)
  with assms show ?thesis
    by (auto simp: handleServerConnection_def split: if_splits)
next
  case (ClientUpgrade w)
  with assms show ?thesis
    by (auto simp: handleClientConnection_def sendTo_def Let_def split: if_splits option.splits)
next
  case (Message w d)
  with assms emit_assigns [of tsc "filter onMessage (listeners W w)" d "session W" s' es]
  show ?thesis by simp
next
  case (Close w)
  with assms emit_assigns [of tsc "filter onClose (listeners W w)" None "session W" s' es]
  show ?thesis by simp
qed

lemma step_assigns:
  assumes "step tsc g ev W = Inr (W', es)"
  shows "(assigned es = [] \<and> nextNodeID (session W') = nextNodeID (session W)
            \<and> dom (clients (session W')) \<subseteq> dom (clients (session W)))
       \<or> (assigned es = [nextNodeID (session W)]
            \<and> nextNodeID (session W') = increment (nextNodeID (session W))
            \<and> dom (clients (session W')) = insert (nextNodeID (session W)) (dom (clients (session W))))"
proof -
  from assms obtain s' where h: "handle tsc g ev W = Inr (s', es)" and w: "session W' = s'"
    by (auto simp: step_def split: sum.splits prod.splits)
  from handle_assigns [OF h] w show ?thesis by simp
qed

lemma min_increment:
  "k \<le> maxExact \<Longrightarrow> min maxExact (increment k + i) = min maxExact (k + Suc i)"
  by (simp add: increment_def min_def)

lemma increment_le: "k \<le> maxExact \<Longrightarrow> increment k \<le> maxExact"
  by (simp add: increment_def)

lemma run_assigned:
  "run tsc g evs W = Inr (W', es) \<Longrightarrow> nextNodeID (session W) \<le> maxExact \<Longrightarrow>
     assigned es =
       map (\<lambda>i. min maxExact (nextNodeID (session W) + i)) [0..<length (assigned es)]
     \<and> nextNodeID (session W') = min maxExact (nextNodeID (session W) + length (assigned es))
     \<and> dom (clients (session W')) \<subseteq> dom (clients (session W)) \<union> set (assigned es)"
proof (induction evs arbitrary: W es)
  case Nil
  then show ?case by simp
next
  case (Cons ev evs)
  from Cons.prems(1) obtain W1 es1 es2 where
    s: "step tsc g ev W = Inr (W1, es1)" and r: "run tsc g evs W1 = Inr (W', es2)"
    and es: "es = es1 @ es2"
    by (auto split: sum.splits prod.splits)
  let ?k = "nextNodeID (session W)"
  from step_assigns [OF s] show ?case
  proof
    assume a: "assigned es1 = [] \<and> nextNodeID (session W1) = ?k
                 \<and> dom (clients (session W1)) \<subseteq> dom (clients (session W))"
    with Cons.prems(2) have "nextNodeID (session W1) \<le> maxExact" by simp
    from Cons.IH [OF r this] a es show ?case
      by (auto simp: assigned_append)
  next
    assume b: "assigned es1 = [?k] \<and> nextNodeID (session W1) = increment ?k
                 \<and> dom (clients (session W1)) = insert ?k (dom (clients (session W)))"
    with Cons.prems(2) have le: "nextNodeID (session W1) \<le> maxExact"
      by (simp add: increment_le)
    let ?n = "length (assigned es2)"
    from Cons.IH [OF r le] b have
      1: "assigned es2 = map (\<lambda>i. min maxExact (increment ?k + i)) [0..<?n]" and
      2: "nextNodeID (session W') = min maxExact (increment ?k + ?n)" and
      3: "dom (clients (session W')) \<subseteq> insert ?k (dom (clients (session W))) \<union> set (assigned es2)"
      by simp_all
    have 4: "assigned es = ?k # assigned es2"
      using b es by (simp add: assigned_append)
    have 5: "map (\<lambda>i. min maxExact (?k + i)) [0..<Suc ?n]
               = ?k # map (\<lambda>i. min maxExact (increment ?k + i)) [0..<?n]"
      using Cons.prems(2) by (simp only: map_upt_Suc min_increment) simp
    have 6: "min maxExact (increment ?k + ?n) = min maxExact (?k + Suc ?n)"
      using Cons.prems(2) by (rule min_increment)
    show ?case
      using 1 2 3 5 6 unfolding 4 by auto
  qed
qed

lemma one_le_maxExact: "1 \<le> maxExact"
  by (simp add: maxExact_def)

lemma exact_prefix:
  "n \<le> maxExact \<Longrightarrow> map (\<lambda>i. min maxExact (1 + i)) [0..<n] = [1..<Suc n]"
proof -
  assume n: "n \<le> maxExact"
  have "map (\<lambda>i. min maxExact (1 + i)) [0..<n] = map Suc [0..<n]"
    using n by (intro map_cong) auto
  also have "\<dots> = [1..<Suc n]"
    by (simp only: map_Suc_upt One_nat_def)
  finally show ?thesis .
qed

text \<open>
  C2, amended. In every run of the process from its start in which at most \<open>2^53\<close>
  participants are admitted, whatever frames and closes come between: the identifiers
  assigned are \<open>1, 2, 3, \<dots>\<close> in this order, hence strictly increasing, none of them
  0, none assigned twice; every registered identifier is one of them; and, while fewer
  than \<open>2^53\<close> have been assigned, the identifier that the next admission will assign
  is not registered, so that no admission replaces a registered participant.
\<close>

theorem identifiers_strictly_increasing:
  "run tsc g evs (main g) = Inr (W, es) \<Longrightarrow> length (assigned es) \<le> maxExact \<Longrightarrow>
     assigned es = [1..<Suc (length (assigned es))]
     \<and> sorted_wrt (<) (assigned es)
     \<and> 0 \<notin> set (assigned es)
     \<and> distinct (assigned es)
     \<and> dom (clients (session W)) \<subseteq> set (assigned es)
     \<and> (length (assigned es) < maxExact \<longrightarrow>
          nextNodeID (session W) \<notin> dom (clients (session W)))"
proof -
  assume r: "run tsc g evs (main g) = Inr (W, es)" and n: "length (assigned es) \<le> maxExact"
  let ?n = "length (assigned es)"
  have k: "nextNodeID (session (main g)) = 1" "dom (clients (session (main g))) = {}"
    by (simp_all add: main_def Session_def serverNodeID_def)
  have "nextNodeID (session (main g)) \<le> maxExact"
    using one_le_maxExact k by simp
  from run_assigned [OF r this] k have
    1: "assigned es = map (\<lambda>i. min maxExact (1 + i)) [0..<?n]" and
    2: "nextNodeID (session W) = min maxExact (1 + ?n)" and
    3: "dom (clients (session W)) \<subseteq> set (assigned es)"
    by simp_all
  have 4: "assigned es = [1..<Suc ?n]"
    using 1 exact_prefix [OF n] by simp
  have 5: "sorted_wrt (<) (assigned es)"
    by (subst 4) (rule sorted_wrt_upt)
  have 6: "0 \<notin> set (assigned es)"
    by (subst 4) (simp del: upt_Suc)
  have 7: "distinct (assigned es)"
    by (subst 4) (rule distinct_upt)
  have 8: "nextNodeID (session W) \<notin> dom (clients (session W))" if "?n < maxExact"
  proof -
    have "nextNodeID (session W) = Suc ?n"
      using 2 that by simp
    moreover have "Suc ?n \<notin> set (assigned es)"
      by (subst 4) (simp del: upt_Suc)
    ultimately show ?thesis using 3 by auto
  qed
  show ?thesis using 4 5 6 7 3 8 by blast
qed

lemma example_assigned:
  "assigned (effectsOf (run RestHelper ''stun:a'' exampleEvents (main ''stun:a''))) = [1, 2]"
  by (simp add: exampleEvents_def main_def Session_def step_def handleServerConnection_def
      handleClientConnection_def sendTo_def Let_def clientClose_def effectsOf_def
      increment_def maxExact_def serverNodeID_def)

theorem identifiers_strictly_increasing_witness:
  "assigned (effectsOf (run RestHelper ''stun:a'' exampleEvents (main ''stun:a''))) = [1, 2]
   \<and> sorted_wrt (<) (assigned (effectsOf (run RestHelper ''stun:a'' exampleEvents (main ''stun:a''))))
   \<and> distinct (assigned (effectsOf (run RestHelper ''stun:a'' exampleEvents (main ''stun:a''))))"
proof -
  obtain W es where r: "run RestHelper ''stun:a'' exampleEvents (main ''stun:a'') = Inr (W, es)"
    using run_returns [of RestHelper "''stun:a''" exampleEvents "main ''stun:a''"] by auto
  have a: "assigned es = [1, 2]"
    using example_assigned r by (simp add: effectsOf_def)
  have "length (assigned es) \<le> maxExact"
    by (simp add: a maxExact_def)
  from identifiers_strictly_increasing [OF r this] a r show ?thesis
    by (simp add: effectsOf_def)
qed

lemma step_ClientUpgrade:
  "serverWS (session W) = Some c \<Longrightarrow>
     \<exists>W1 es1. step tsc g (ClientUpgrade w) W = Inr (W1, es1)
              \<and> serverWS (session W1) = Some c \<and> assigned es1 = [nextNodeID (session W)]"
  by (simp add: step_def handleClientConnection_def sendTo_def Let_def)

lemma admissions_count:
  "serverWS (session W) = Some c \<Longrightarrow> run tsc g (replicate n (ClientUpgrade w)) W = Inr (W', es) \<Longrightarrow>
     length (assigned es) = n"
proof (induction n arbitrary: W es)
  case 0
  then show ?case by simp
next
  case (Suc n)
  from step_ClientUpgrade [OF Suc.prems(1), of tsc g w] obtain W1 es1 where
    s: "step tsc g (ClientUpgrade w) W = Inr (W1, es1)" and
    c: "serverWS (session W1) = Some c" and a: "assigned es1 = [nextNodeID (session W)]"
    by blast
  from Suc.prems(2) s obtain es2 where
    r: "run tsc g (replicate n (ClientUpgrade w)) W1 = Inr (W', es2)" and es: "es = es1 @ es2"
    by (auto split: sum.splits prod.splits)
  from Suc.IH [OF c r] a es show ?case
    by (simp add: assigned_append)
qed

text \<open>
  The claim as stated, for every sequence of operations, fails when the counter reaches
  \<open>2^53\<close>, where \<^verbatim>\<open>nextNodeID++\<close> no longer changes it: of \<open>2^53 + 1\<close>
  admissions the last two are assigned the same identifier \<open>2^53\<close>.
\<close>

theorem identifier_reused_after_2_53:
  "assigned (effectsOf (run RestHelper ''stun:a'' overflowEvents (main ''stun:a''))) ! (maxExact - 1)
     = maxExact
   \<and> assigned (effectsOf (run RestHelper ''stun:a'' overflowEvents (main ''stun:a''))) ! maxExact
     = maxExact
   \<and> \<not> distinct (assigned (effectsOf (run RestHelper ''stun:a'' overflowEvents (main ''stun:a''))))"
proof -
  let ?g = "''stun:a''"
  let ?W1 = "\<lparr>session = (Session ?g)\<lparr>serverWS := Some 0\<rparr>,
              listeners = (\<lambda>w. [])(0 := [ServerMessage, ServerClose])\<rparr>"
  let ?es1 = "[On 0 ServerMessage, On 0 ServerClose,
               Send 0 (JSON_stringify (helloMsg serverNodeID ?g))]"
  have s: "step RestHelper ?g (ServerUpgrade 0) (main ?g) = Inr (?W1, ?es1)"
    by (simp add: step_def handleServerConnection_def main_def Session_def)
  have c: "serverWS (session ?W1) = Some 0"
    by simp
  have k: "nextNodeID (session ?W1) = 1"
    by (simp add: Session_def serverNodeID_def)
  obtain W2 es2 where
    r: "run RestHelper ?g (replicate (Suc maxExact) (ClientUpgrade 1)) ?W1 = Inr (W2, es2)"
    using run_returns [of RestHelper ?g "replicate (Suc maxExact) (ClientUpgrade 1)" ?W1] by blast
  have n: "length (assigned es2) = Suc maxExact"
    using admissions_count [OF c r] .
  have le: "nextNodeID (session ?W1) \<le> maxExact"
    unfolding k by (rule one_le_maxExact)
  have a: "assigned es2 = map (\<lambda>i. min maxExact (1 + i)) [0..<Suc maxExact]"
    using run_assigned [OF r le] unfolding k n by blast
  have whole: "run RestHelper ?g overflowEvents (main ?g) = Inr (W2, ?es1 @ es2)"
    unfolding overflowEvents_def run.simps(2) s using r by simp
  have all: "assigned (effectsOf (run RestHelper ?g overflowEvents (main ?g))) = assigned es2"
    unfolding whole by (simp add: effectsOf_def)
  have pos: "0 < maxExact"
    using one_le_maxExact by simp
  have i: "assigned es2 ! (maxExact - 1) = maxExact"
    unfolding a using pos by (subst nth_map_upt) simp_all
  have j: "assigned es2 ! maxExact = maxExact"
    unfolding a by (subst nth_map_upt) simp_all
  have "maxExact - 1 < length (assigned es2)" "maxExact < length (assigned es2)"
    "maxExact - 1 \<noteq> maxExact"
    using n pos by simp_all
  with i j have "\<not> distinct (assigned es2)"
    unfolding distinct_conv_nth by metis
  with i j show ?thesis
    unfolding all by blast
qed

subsection \<open>The two implementations\<close>

lemma view_handleServerConnection:
  "js_handleServerConnection w (view s) = viewHandled (handleServerConnection js_iceServerUrl w s)"
  by (simp add: js_handleServerConnection_def handleServerConnection_def viewHandled_def view_def)

lemma view_handleClientConnection:
  "iceServerUrl s = js_iceServerUrl \<Longrightarrow>
     js_handleClientConnection w (view s) = viewHandled (handleClientConnection w s)"
  by (auto simp: js_handleClientConnection_def handleClientConnection_def viewHandled_def
        view_def sendTo_def Let_def)

lemma view_handleServerMessage_native:
  "js_handleServerMessage d (view s) = viewHandled (handleServerMessage NativeRest d s)"
proof (cases "JSON_parse d")
  case (Inl e)
  then show ?thesis
    by (simp add: js_handleServerMessage_def handleServerMessage_def try_catch_def
          viewHandled_def)
next
  case p: (Inr v)
  show ?thesis
  proof (cases "destructure NativeRest v")
    case (Inl e)
    with p show ?thesis
      by (simp add: js_handleServerMessage_def handleServerMessage_def try_catch_def
            viewHandled_def)
  next
    case (Inr r)
    obtain nodeID rest where r: "r = (nodeID, rest)" by (cases r)
    show ?thesis
    proof (cases "mapGet (clients s) nodeID")
      case None
      with p Inr r show ?thesis
        by (cases "interpolate nodeID")
           (simp_all add: js_handleServerMessage_def handleServerMessage_def try_catch_def
              viewHandled_def mapHas_mapGet view_def)
    next
      case (Some c)
      with p Inr r show ?thesis
        by (simp add: js_handleServerMessage_def handleServerMessage_def try_catch_def
              viewHandled_def mapHas_mapGet view_def sendTo_def)
    qed
  qed
qed

lemma objectRest_native:
  "tsc = NativeRest \<or> map_of kvs ''__proto__'' = None \<Longrightarrow>
     objectRest tsc kvs = objectRest NativeRest kvs"
  using objectRest_plain [of tsc kvs] objectRest_plain [of NativeRest kvs]
  by (simp del: objectRest.simps)

lemma destructure_native:
  assumes "tsc = NativeRest \<or> (\<forall>kvs. v = JObj kvs \<longrightarrow> map_of kvs ''__proto__'' = None)"
  shows "destructure tsc v = destructure NativeRest v"
proof (cases v)
  case (JObj kvs)
  with assms have "tsc = NativeRest \<or> map_of kvs ''__proto__'' = None"
    by simp
  from objectRest_native [OF this] JObj show ?thesis
    by (simp del: objectRest.simps)
qed simp_all

lemma handleServerMessage_native:
  "tsc = NativeRest \<or> (\<forall>kvs. d = Some (JObj kvs) \<longrightarrow> map_of kvs ''__proto__'' = None) \<Longrightarrow>
     handleServerMessage tsc d s = handleServerMessage NativeRest d s"
proof (cases d)
  case None
  then show ?thesis by (simp add: handleServerMessage_def JSON_parse_def)
next
  case (Some v)
  assume "tsc = NativeRest \<or> (\<forall>kvs. d = Some (JObj kvs) \<longrightarrow> map_of kvs ''__proto__'' = None)"
  with Some have "destructure tsc v = destructure NativeRest v"
    by (intro destructure_native) auto
  with Some show ?thesis by (simp add: handleServerMessage_def JSON_parse_def)
qed

lemma view_handleClientMessage:
  "js_handleClientMessage n d (view s) = viewHandled (handleClientMessage n d s)"
proof (cases "JSON_parse d")
  case (Inl e)
  then show ?thesis
    by (simp add: js_handleClientMessage_def handleClientMessage_def try_catch_def
          viewHandled_def)
next
  case p: (Inr msg)
  show ?thesis
  proof (cases "getNodeID msg")
    case (Inl e)
    with p show ?thesis
      by (simp add: js_handleClientMessage_def handleClientMessage_def try_catch_def
            viewHandled_def)
  next
    case g: (Inr declared)
    show ?thesis
    proof (cases "warnDeclared declared")
      case (Inl e)
      with p g show ?thesis
        by (simp add: js_handleClientMessage_def handleClientMessage_def try_catch_def
              viewHandled_def)
    next
      case w: (Inr logged)
      show ?thesis
      proof (cases "setNodeID msg n")
        case (Inl e)
        with p g w show ?thesis
          by (simp add: js_handleClientMessage_def handleClientMessage_def try_catch_def
                viewHandled_def)
      next
        case (Inr msg')
        with p g w show ?thesis
          by (cases "serverWS s")
             (simp_all add: js_handleClientMessage_def handleClientMessage_def try_catch_def
                viewHandled_def view_def sendTo_def)
      qed
    qed
  qed
qed

lemma view_call:
  assumes "l = ServerMessage \<longrightarrow>
             tsc = NativeRest \<or> (\<forall>kvs. d = Some (JObj kvs) \<longrightarrow> map_of kvs ''__proto__'' = None)"
  shows "js_call l d (view s) = viewHandled (call tsc l d s)"
proof (cases l)
  case ServerMessage
  with assms have "handleServerMessage tsc d s = handleServerMessage NativeRest d s"
    by (intro handleServerMessage_native) simp
  with ServerMessage view_handleServerMessage_native [of d s] show ?thesis
    by simp
next
  case ServerClose
  then show ?thesis
    by (simp add: js_serverClose_def serverClose_def viewHandled_def view_def)
next
  case (ClientMessage n)
  then show ?thesis by (simp add: view_handleClientMessage)
next
  case (ClientClose n)
  then show ?thesis
    by (simp add: js_clientClose_def clientClose_def viewHandled_def view_def)
qed

lemma view_emit:
  assumes "ServerMessage \<in> set ls \<longrightarrow>
             tsc = NativeRest \<or> (\<forall>kvs. d = Some (JObj kvs) \<longrightarrow> map_of kvs ''__proto__'' = None)"
  shows "js_emit ls d (view s) = viewHandled (emit tsc ls d s)"
  using assms
proof (induction ls arbitrary: s)
  case Nil
  show ?case by (simp add: viewHandled_def)
next
  case (Cons l ls)
  have vc: "js_call l d (view s) = viewHandled (call tsc l d s)"
    using Cons.prems by (intro view_call) auto
  have ih: "js_emit ls d (view s1) = viewHandled (emit tsc ls d s1)" for s1
    using Cons.prems by (intro Cons.IH) auto
  show ?case
  proof (cases "call tsc l d s")
    case (Inl e)
    then show ?thesis
      using vc by (simp add: viewHandled_def)
  next
    case (Inr r)
    obtain s1 es1 where r: "r = (s1, es1)" by (cases r)
    have c: "js_call l d (view s) = Inr (view s1, es1)"
      using vc Inr r by (simp add: viewHandled_def)
    show ?thesis
      using Inr r c ih [of s1]
      by (cases "emit tsc ls d s1") (auto simp: viewHandled_def)
  qed
qed

lemma view_handle:
  assumes "iceServerUrl (session W) = js_iceServerUrl"
    and "tsc = NativeRest \<or> \<not> (coordinatorFrame W ev \<and> hasProto ev)"
  shows "js_handle ev (viewWorld W) = viewHandled (handle tsc js_iceServerUrl ev W)"
proof (cases ev)
  case (ServerUpgrade w)
  then show ?thesis by (simp add: viewWorld_def view_handleServerConnection)
next
  case (ClientUpgrade w)
  with assms(1) show ?thesis by (simp add: viewWorld_def view_handleClientConnection)
next
  case (Message w d)
  have "ServerMessage \<in> set (filter onMessage (listeners W w)) \<longrightarrow>
          tsc = NativeRest \<or> (\<forall>kvs. d = Some (JObj kvs) \<longrightarrow> map_of kvs ''__proto__'' = None)"
    using assms(2) Message by auto
  from view_emit [OF this] Message show ?thesis by (simp add: viewWorld_def)
next
  case (Close w)
  have "ServerMessage \<in> set (filter onClose (listeners W w)) \<longrightarrow>
          tsc = NativeRest
          \<or> (\<forall>kvs. (None :: data) = Some (JObj kvs) \<longrightarrow> map_of kvs ''__proto__'' = None)"
    by simp
  from view_emit [OF this] Close show ?thesis by (simp add: viewWorld_def)
qed

lemma view_step:
  assumes "iceServerUrl (session W) = js_iceServerUrl"
    and "tsc = NativeRest \<or> \<not> (coordinatorFrame W ev \<and> hasProto ev)"
  shows "js_step ev (viewWorld W) = viewRun (step tsc js_iceServerUrl ev W)"
  using view_handle [OF assms]
  by (cases "handle tsc js_iceServerUrl ev W")
     (auto simp: js_step_def step_def viewRun_def viewHandled_def viewWorld_def)

lemma view_run:
  "iceServerUrl (session W) = js_iceServerUrl \<Longrightarrow>
   tsc = NativeRest \<or> protoFree tsc js_iceServerUrl evs W \<Longrightarrow>
     js_run evs (viewWorld W) = viewRun (run tsc js_iceServerUrl evs W)"
proof (induction evs arbitrary: W)
  case Nil
  show ?case by (simp add: viewRun_def)
next
  case (Cons ev evs)
  have here: "tsc = NativeRest \<or> \<not> (coordinatorFrame W ev \<and> hasProto ev)"
    using Cons.prems(2) by auto
  note vs = view_step [OF Cons.prems(1) here]
  show ?case
  proof (cases "step tsc js_iceServerUrl ev W")
    case (Inl e)
    then show ?thesis
      using vs by (simp add: viewRun_def)
  next
    case (Inr r)
    obtain W1 es1 where r: "r = (W1, es1)" by (cases r)
    have u: "iceServerUrl (session W1) = js_iceServerUrl"
      using step_url [of tsc js_iceServerUrl ev W W1 es1] Inr r Cons.prems(1) by simp
    have later: "tsc = NativeRest \<or> protoFree tsc js_iceServerUrl evs W1"
      using Cons.prems(2) Inr r by auto
    have s: "js_step ev (viewWorld W) = Inr (viewWorld W1, es1)"
      using vs Inr r by (simp add: viewRun_def)
    show ?thesis
      using Inr r s Cons.IH [OF u later]
      by (cases "run tsc js_iceServerUrl evs W1") (auto simp: viewRun_def)
  qed
qed

text \<open>
  C10, amended. When the configured URL of app.ts (the module constant and the field of
  the session) is the URL that app.js has as its constant, and the two implementations
  start in the same state (slot, registry, counter and listeners), they make the same
  calls on the same connections in the same order and end in the same state: for every
  sequence of upgrades, frames and closes when app.ts is built with the object rest of
  the language, and, when it is built with the helper \<^verbatim>\<open>__rest\<close>, for every
  sequence in which no frame with a field \<^verbatim>\<open>__proto__\<close> reaches the coordinator's
  message listener. The two start-up states are the same state.
\<close>

theorem implementations_equivalent:
  "moduleUrl = js_iceServerUrl \<Longrightarrow> iceServerUrl (session W) = js_iceServerUrl \<Longrightarrow>
   tsc = NativeRest \<or> protoFree tsc moduleUrl evs W \<Longrightarrow>
     js_run evs (viewWorld W) = viewRun (run tsc moduleUrl evs W)
     \<and> viewWorld (main moduleUrl) = js_main"
  using view_run [of W tsc evs]
  by (simp add: viewWorld_def view_def main_def Session_def js_main_def js_Session_def)

lemma relayEvents_protoFree:
  "protoFree RestHelper js_iceServerUrl relayEvents (main js_iceServerUrl)"
  by (simp add: relayEvents_def main_def Session_def step_def handleServerConnection_def
      handleClientConnection_def sendTo_def Let_def handleServerMessage_object mapGet_def
      increment_def maxExact_def serverNodeID_def)

theorem implementations_equivalent_witness:
  "js_run relayEvents js_main
     = viewRun (run RestHelper js_iceServerUrl relayEvents (main js_iceServerUrl))
   \<and> js_run protoEvents js_main
     = viewRun (run NativeRest js_iceServerUrl protoEvents (main js_iceServerUrl))"
proof -
  have u: "iceServerUrl (session (main js_iceServerUrl)) = js_iceServerUrl"
    by (simp add: main_def Session_def)
  have 1: "RestHelper = NativeRest
           \<or> protoFree RestHelper js_iceServerUrl relayEvents (main js_iceServerUrl)"
    using relayEvents_protoFree by simp
  have 2: "NativeRest = NativeRest
           \<or> protoFree NativeRest js_iceServerUrl protoEvents (main js_iceServerUrl)"
    by simp
  from implementations_equivalent [OF refl u 1] implementations_equivalent [OF refl u 2]
  show ?thesis
    by metis
qed

text \<open>
  The claim as stated, for every sequence of events, fails for app.ts built with the
  helper \<^verbatim>\<open>__rest\<close>: of the coordinator's frame
  \<^verbatim>\<open>{"nodeID":1,"__proto__":{"a":1},"b":2}\<close> participant 1 receives
  \<^verbatim>\<open>{"b":2}\<close> from app.ts and \<^verbatim>\<open>{"__proto__":{"a":1},"b":2}\<close> from app.js.
\<close>

theorem implementations_differ_on_proto:
  "sentTo 4 (effectsOf (run RestHelper js_iceServerUrl protoEvents (main js_iceServerUrl)))
     = [JObj [(''type'', JStr ''hello''), (''nodeID'', JNum (Finite 1)),
              (''iceServerUrl'', JStr js_iceServerUrl)],
        JObj [(''b'', JNum (Finite 2))]]
   \<and> sentTo 4 (effectsOf (js_run protoEvents js_main))
     = [JObj [(''type'', JStr ''hello''), (''nodeID'', JNum (Finite 1)),
              (''iceServerUrl'', JStr js_iceServerUrl)],
        JObj [(''__proto__'', JObj [(''a'', JNum (Finite 1))]), (''b'', JNum (Finite 2))]]"
  by (simp add: protoEvents_def main_def Session_def js_main_def js_Session_def step_def
      js_step_def handleServerConnection_def js_handleServerConnection_def
      handleClientConnection_def js_handleClientConnection_def sendTo_def Let_def
      handleServerMessage_object js_handleServerMessage_object mapGet_def
      increment_def maxExact_def serverNodeID_def effectsOf_def helloMsg_def
      clientConnectedMsg_def)

end
